theory Spec2Isabelle
  imports Complex_Main "HOL-Library.Multiset"
begin

section \<open>JavaScript numbers and values\<close>

text \<open>
  The result-synthesis engine is TypeScript; every number in it is a JavaScript
  \<^verbatim>\<open>number\<close>, an IEEE-754 double. A number is modelled as a real, or one of the
  three special values \<^verbatim>\<open>NaN\<close>, \<^verbatim>\<open>Infinity\<close>, \<^verbatim>\<open>-Infinity\<close> that the engine
  tests for (\<^verbatim>\<open>isNaN\<close>, \<^verbatim>\<open>|| 0\<close>) or that its operators produce from finite
  operands. The operations of this section are the exact ones; \<open>binary64\<close> below is
  the rounding that turns an exact result into a double.

  The correlation engine subtracts sums of squares of the uploaded table, where the
  rounding decides the outcome: its operators round. The result synthesizer computes
  with a handful of values between 0 and 1000 that it rounds to two or four decimals
  itself; its arithmetic and the comparator of the sort are kept exact. The sign of
  zero is not represented.
\<close>

datatype jsnum = Fin real | NaN | PInf | NInf

definition signed_inf :: "real \<Rightarrow> jsnum" where
  "signed_inf s = (if 0 < s then PInf else if s < 0 then NInf else NaN)"

fun num_sign :: "jsnum \<Rightarrow> real" where
  "num_sign (Fin a) = sgn a"
| "num_sign PInf = 1"
| "num_sign NInf = - 1"
| "num_sign NaN = 0"

fun num_neg :: "jsnum \<Rightarrow> jsnum" where
  "num_neg (Fin a) = Fin (- a)"
| "num_neg PInf = NInf"
| "num_neg NInf = PInf"
| "num_neg NaN = NaN"

fun num_add :: "jsnum \<Rightarrow> jsnum \<Rightarrow> jsnum" where
  "num_add (Fin a) (Fin b) = Fin (a + b)"
| "num_add NaN _ = NaN"
| "num_add _ NaN = NaN"
| "num_add PInf NInf = NaN"
| "num_add NInf PInf = NaN"
| "num_add PInf _ = PInf"
| "num_add _ PInf = PInf"
| "num_add NInf _ = NInf"
| "num_add _ NInf = NInf"

definition num_sub :: "jsnum \<Rightarrow> jsnum \<Rightarrow> jsnum" where
  "num_sub a b = num_add a (num_neg b)"

fun num_mul :: "jsnum \<Rightarrow> jsnum \<Rightarrow> jsnum" where
  "num_mul (Fin a) (Fin b) = Fin (a * b)"
| "num_mul NaN _ = NaN"
| "num_mul _ NaN = NaN"
| "num_mul x y = signed_inf (num_sign x * num_sign y)"

text \<open>Division: \<^verbatim>\<open>0/0\<close> is \<^verbatim>\<open>NaN\<close>, a non-zero value over zero is an infinity.\<close>

fun num_div :: "jsnum \<Rightarrow> jsnum \<Rightarrow> jsnum" where
  "num_div NaN _ = NaN"
| "num_div _ NaN = NaN"
| "num_div (Fin a) (Fin b) = (if b = 0 then signed_inf a else Fin (a / b))"
| "num_div (Fin a) _ = Fin 0"
| "num_div x (Fin b) = signed_inf (num_sign x * (if b < 0 then - 1 else 1))"
| "num_div _ _ = NaN"

text \<open>The comparison \<^verbatim>\<open><\<close>: false as soon as one side is \<^verbatim>\<open>NaN\<close>.\<close>

fun num_less :: "jsnum \<Rightarrow> jsnum \<Rightarrow> bool" where
  "num_less NaN _ = False"
| "num_less _ NaN = False"
| "num_less (Fin a) (Fin b) = (a < b)"
| "num_less NInf NInf = False"
| "num_less NInf _ = True"
| "num_less _ NInf = False"
| "num_less PInf _ = False"
| "num_less _ PInf = True"

fun Math_sqrt :: "jsnum \<Rightarrow> jsnum" where
  "Math_sqrt (Fin a) = (if a < 0 then NaN else Fin (sqrt a))"
| "Math_sqrt PInf = PInf"
| "Math_sqrt NInf = NaN"
| "Math_sqrt NaN = NaN"

fun Math_abs :: "jsnum \<Rightarrow> jsnum" where
  "Math_abs (Fin a) = Fin \<bar>a\<bar>"
| "Math_abs PInf = PInf"
| "Math_abs NInf = PInf"
| "Math_abs NaN = NaN"

definition Math_max :: "jsnum \<Rightarrow> jsnum \<Rightarrow> jsnum" where
  "Math_max a b = (if a = NaN \<or> b = NaN then NaN else if num_less a b then b else a)"

definition Math_min :: "jsnum \<Rightarrow> jsnum \<Rightarrow> jsnum" where
  "Math_min a b = (if a = NaN \<or> b = NaN then NaN else if num_less b a then b else a)"

text \<open>\<^verbatim>\<open>Math.round\<close> rounds to the nearest integer, a tie towards plus infinity.\<close>

fun Math_round :: "jsnum \<Rightarrow> jsnum" where
  "Math_round (Fin a) = Fin (of_int \<lfloor>a + 1 / 2\<rfloor>)"
| "Math_round x = x"

definition isNaN :: "jsnum \<Rightarrow> bool" where
  "isNaN x = (x = NaN)"

text \<open>
  \<^verbatim>\<open>parseFloat(x.toFixed(d))\<close>: the decimal with \<open>d\<close> fraction digits nearest to
  \<open>x\<close>, a tie away from zero; from \<open>10^21\<close> on \<^verbatim>\<open>toFixed\<close> prints the number itself.
\<close>

definition round_dec :: "nat \<Rightarrow> real \<Rightarrow> real" where
  "round_dec d a = sgn a * of_int \<lfloor>\<bar>a\<bar> * 10 ^ d + 1 / 2\<rfloor> / 10 ^ d"

fun parseFloat_toFixed :: "nat \<Rightarrow> jsnum \<Rightarrow> jsnum" where
  "parseFloat_toFixed d (Fin a) = (if 10 ^ 21 \<le> \<bar>a\<bar> then Fin a else Fin (round_dec d a))"
| "parseFloat_toFixed d x = x"

text \<open>\<^verbatim>\<open>x || 0\<close> on a number: the falsy numbers are zero and \<^verbatim>\<open>NaN\<close>.\<close>

definition or_zero :: "jsnum \<Rightarrow> jsnum" where
  "or_zero x = (if x = Fin 0 \<or> x = NaN then Fin 0 else x)"

text \<open>
  The double for an exact result: the nearest one, a tie to the even significand. A
  double has 53 significant bits; its exponent runs from \<open>-1022\<close>, below which the
  spacing stays that of the subnormal numbers, to \<open>1023\<close>, and a result that rounds
  to \<open>2^1024\<close> or beyond is an infinity.
\<close>

definition round_even :: "real \<Rightarrow> int" where
  "round_even t =
     (let f = \<lfloor>t\<rfloor> in
      if t - of_int f < 1 / 2 then f
      else if 1 / 2 < t - of_int f then f + 1
      else if even f then f else f + 1)"

definition exponent :: "real \<Rightarrow> int" where
  "exponent x = max \<lfloor>log 2 \<bar>x\<bar>\<rfloor> (- 1022)"

definition ulp :: "real \<Rightarrow> real" where
  "ulp x = 2 powr (of_int (exponent x) - 52)"

definition binary64 :: "real \<Rightarrow> jsnum" where
  "binary64 x =
     (if x = 0 then Fin 0
      else
        let y = of_int (round_even (x / ulp x)) * ulp x
        in if 2 ^ 1024 \<le> \<bar>y\<bar> then signed_inf x else Fin y)"

fun rounded :: "jsnum \<Rightarrow> jsnum" where
  "rounded (Fin a) = binary64 a"
| "rounded x = x"

text \<open>
  A cell of an uploaded table (\<^verbatim>\<open>rows: any[]\<close>) holds a primitive value. The casts
  \<^verbatim>\<open>as number[]\<close> of the engine do nothing at run time, so the arithmetic operators
  meet every kind of cell and coerce it as the language prescribes. Reading a string
  as a number and printing a number as a string are left to the run time, which is a
  parameter of the model.
\<close>

datatype jsval = JNum jsnum | JStr string | JBool bool | JNull | JUndefined

record js_runtime =
  StringToNumber :: "string \<Rightarrow> jsnum"
  NumberToString :: "jsnum \<Rightarrow> string"

fun ToNumber :: "js_runtime \<Rightarrow> jsval \<Rightarrow> jsnum" where
  "ToNumber rt (JNum n) = n"
| "ToNumber rt (JStr s) = StringToNumber rt s"
| "ToNumber rt (JBool b) = (if b then Fin 1 else Fin 0)"
| "ToNumber rt JNull = Fin 0"
| "ToNumber rt JUndefined = NaN"

fun ToString :: "js_runtime \<Rightarrow> jsval \<Rightarrow> string" where
  "ToString rt (JNum n) = NumberToString rt n"
| "ToString rt (JStr s) = s"
| "ToString rt (JBool b) = (if b then ''true'' else ''false'')"
| "ToString rt JNull = ''null''"
| "ToString rt JUndefined = ''undefined''"

fun is_string :: "jsval \<Rightarrow> bool" where
  "is_string (JStr s) = True"
| "is_string v = False"

text \<open>
  The operators as the correlation engine meets them, each answering the double for
  its exact result; so does \<^verbatim>\<open>Math.sqrt\<close>, which the engines compute with the
  correctly rounded instruction of the processor. The operator \<^verbatim>\<open>+\<close> concatenates
  when one side is a string and adds otherwise.
\<close>

definition js_add :: "js_runtime \<Rightarrow> jsval \<Rightarrow> jsval \<Rightarrow> jsval" where
  "js_add rt a b =
     (if is_string a \<or> is_string b then JStr (ToString rt a @ ToString rt b)
      else JNum (rounded (num_add (ToNumber rt a) (ToNumber rt b))))"

definition js_mul :: "js_runtime \<Rightarrow> jsval \<Rightarrow> jsval \<Rightarrow> jsnum" where
  "js_mul rt a b = rounded (num_mul (ToNumber rt a) (ToNumber rt b))"

definition js_sub :: "jsnum \<Rightarrow> jsnum \<Rightarrow> jsnum" where
  "js_sub a b = rounded (num_sub a b)"

definition js_div :: "jsnum \<Rightarrow> jsnum \<Rightarrow> jsnum" where
  "js_div a b = rounded (num_div a b)"

definition js_sqrt :: "jsnum \<Rightarrow> jsnum" where
  "js_sqrt a = rounded (Math_sqrt a)"

text \<open>Reading an array beyond its end gives \<^verbatim>\<open>undefined\<close>.\<close>

definition at_index :: "jsval list \<Rightarrow> nat \<Rightarrow> jsval" where
  "at_index xs i = (if i < length xs then xs ! i else JUndefined)"

section \<open>The correlation engine\<close>

subsection \<open>calculateCorrelation\<close>

text \<open>
  \<^verbatim>\<open>reduce\<close> with an initial value is a left fold; the callback of \<^verbatim>\<open>sumXY\<close> also
  receives the index.
\<close>

definition calculateCorrelation :: "js_runtime \<Rightarrow> jsval list \<Rightarrow> jsval list \<Rightarrow> jsnum" where
  "calculateCorrelation rt x y =
     (let n = length x in
      if n = 0 then Fin 0
      else
        let sumX = foldl (\<lambda>a b. js_add rt a b) (JNum (Fin 0)) x;
            sumY = foldl (\<lambda>a b. js_add rt a b) (JNum (Fin 0)) y;
            sumXY = foldl (\<lambda>sum (xi, i). js_add rt sum (JNum (js_mul rt xi (at_index y i))))
                      (JNum (Fin 0)) (zip x [0..<length x]);
            sumX2 = foldl (\<lambda>sum xi. js_add rt sum (JNum (js_mul rt xi xi))) (JNum (Fin 0)) x;
            sumY2 = foldl (\<lambda>sum yi. js_add rt sum (JNum (js_mul rt yi yi))) (JNum (Fin 0)) y;
            numerator = js_sub (js_mul rt (JNum (Fin (of_nat n))) sumXY) (js_mul rt sumX sumY);
            denominator = js_sqrt (js_mul rt
              (JNum (js_sub (js_mul rt (JNum (Fin (of_nat n))) sumX2) (js_mul rt sumX sumX)))
              (JNum (js_sub (js_mul rt (JNum (Fin (of_nat n))) sumY2) (js_mul rt sumY sumY))))
        in if denominator = Fin 0 then Fin 0 else js_div numerator denominator)"

subsection \<open>calculateFeatureImpacts\<close>

datatype column_type = TString | TNumber | TBoolean | TUnknown

record DatasetColumn =
  col_name :: string
  col_type :: column_type
  missingCount :: nat
  uniqueCount :: nat

text \<open>A row is an object: a finite map from column names to cells.\<close>

type_synonym row = "string \<rightharpoonup> jsval"

record Dataset =
  ds_name :: string
  rows :: "row list"
  columns :: "DatasetColumn list"
  totalRows :: nat

record FeatureImpact =
  fi_name :: string
  impact :: jsnum

text \<open>\<^verbatim>\<open>r[key]\<close>: a property the object does not have reads as \<^verbatim>\<open>undefined\<close>.\<close>

definition get_prop :: "row \<Rightarrow> string \<Rightarrow> jsval" where
  "get_prop r k = (case r k of Some v \<Rightarrow> v | None \<Rightarrow> JUndefined)"

text \<open>\<^verbatim>\<open>xs.find(p)\<close>: the first element that satisfies \<open>p\<close>, else \<^verbatim>\<open>undefined\<close>.\<close>

definition js_find :: "(jsval \<Rightarrow> bool) \<Rightarrow> jsval list \<Rightarrow> jsval" where
  "js_find p xs = (case List.find p xs of Some v \<Rightarrow> v | None \<Rightarrow> JUndefined)"

text \<open>
  \<^verbatim>\<open>Array.from(new Set(xs))\<close>: a set keeps its members in insertion order, and adding
  a member it already has changes nothing. A set identifies \<^verbatim>\<open>NaN\<close> with itself.
\<close>

definition set_add :: "jsval list \<Rightarrow> jsval \<Rightarrow> jsval list" where
  "set_add seen v = (if v \<in> set seen then seen else seen @ [v])"

definition array_from_set :: "jsval list \<Rightarrow> jsval list" where
  "array_from_set xs = foldl set_add [] xs"

text \<open>
  \<^verbatim>\<open>xs.indexOf(v)\<close> compares with \<^verbatim>\<open>===\<close>, under which \<^verbatim>\<open>NaN\<close> differs from
  itself; it answers \<open>-1\<close> when nothing matches.
\<close>

definition strict_equal :: "jsval \<Rightarrow> jsval \<Rightarrow> bool" where
  "strict_equal u v = (u = v \<and> u \<noteq> JNum NaN)"

fun indexOf_from :: "nat \<Rightarrow> jsval list \<Rightarrow> jsval \<Rightarrow> jsnum" where
  "indexOf_from i [] v = Fin (- 1)"
| "indexOf_from i (u # us) v =
     (if strict_equal u v then Fin (of_nat i) else indexOf_from (Suc i) us v)"

definition indexOf :: "jsval list \<Rightarrow> jsval \<Rightarrow> jsnum" where
  "indexOf xs v = indexOf_from 0 xs v"

text \<open>The two lines that label-encode a column, the same for the target and a feature.\<close>

definition label_encode :: "jsval list \<Rightarrow> jsval list" where
  "label_encode raw =
     (let uniqueVals = array_from_set raw
      in map (\<lambda>v. JNum (indexOf uniqueVals v)) raw)"

definition targetNums :: "Dataset \<Rightarrow> string \<Rightarrow> jsval list" where
  "targetNums dataset targetCol =
     (let targetRaw = map (\<lambda>r. get_prop r targetCol) (rows dataset);
          targetIsString = is_string (js_find (\<lambda>v. v \<noteq> JNull) targetRaw)
      in if targetIsString then label_encode targetRaw else targetRaw)"

definition featureNums :: "Dataset \<Rightarrow> DatasetColumn \<Rightarrow> jsval list" where
  "featureNums dataset col =
     (let rawVals = map (\<lambda>r. get_prop r (col_name col)) (rows dataset)
      in if col_type col \<noteq> TNumber then label_encode rawVals else rawVals)"

text \<open>
  \<^verbatim>\<open>Array.prototype.sort\<close> is stable and reads the comparator's sign: a positive
  answer puts the second argument first, anything else (zero, negative, \<^verbatim>\<open>NaN\<close>)
  keeps the order. Insertion from the right is such a sort.
\<close>

fun insert_sorted :: "('a \<Rightarrow> 'a \<Rightarrow> jsnum) \<Rightarrow> 'a \<Rightarrow> 'a list \<Rightarrow> 'a list" where
  "insert_sorted cmp x [] = [x]"
| "insert_sorted cmp x (y # ys) =
     (if num_less (Fin 0) (cmp x y) then y # insert_sorted cmp x ys else x # y # ys)"

definition js_sort :: "('a \<Rightarrow> 'a \<Rightarrow> jsnum) \<Rightarrow> 'a list \<Rightarrow> 'a list" where
  "js_sort cmp xs = foldr (insert_sorted cmp) xs []"

definition featureImpact :: "js_runtime \<Rightarrow> Dataset \<Rightarrow> string \<Rightarrow> DatasetColumn \<Rightarrow> FeatureImpact" where
  "featureImpact rt dataset targetCol col =
     (let corr = calculateCorrelation rt (featureNums dataset col) (targetNums dataset targetCol)
      in \<lparr>fi_name = col_name col, impact = (if isNaN corr then Fin 0 else corr)\<rparr>)"

definition calculateFeatureImpacts :: "js_runtime \<Rightarrow> Dataset \<Rightarrow> string \<Rightarrow> FeatureImpact list" where
  "calculateFeatureImpacts rt dataset targetCol =
     (if targetCol = [] then []
      else
        let impacts = map (featureImpact rt dataset targetCol)
                        (filter (\<lambda>col. col_name col \<noteq> targetCol) (columns dataset))
        in js_sort (\<lambda>a b. num_sub (Math_abs (impact b)) (Math_abs (impact a))) impacts)"

section \<open>The result synthesizer\<close>

subsection \<open>Configuration and result\<close>

datatype ModelCategory = MachineLearning | DeepLearning | NLP

datatype tuning_method = Grid | Random

record TuningConfig =
  tuning_enabled :: bool
  tuning_method :: tuning_method
  paramGrid :: "string \<rightharpoonup> string"

record CrossValidationConfig =
  cv_enabled :: bool
  kFold :: jsnum

record ModelConfig =
  category :: ModelCategory
  modelName :: string
  targetColumn :: string
  hyperparameters :: "string \<rightharpoonup> jsval"
  tuning :: TuningConfig
  crossValidation :: CrossValidationConfig

record TrainingMetrics =
  accuracy :: jsnum
  precision :: jsnum
  recall :: jsnum
  f1Score :: jsnum
  auc :: "jsnum option"
  rmse :: "jsnum option"
  mae :: "jsnum option"

record EpochLog =
  epoch :: nat
  loss :: jsnum
  log_accuracy :: jsnum
  val_loss :: jsnum
  val_accuracy :: jsnum

record FeatureValue =
  feature :: string
  val :: jsnum

record FeatureImp =
  imp_feature :: string
  importance :: jsnum

text \<open>
  Of the result bundle the record keeps the metrics, the confusion matrix, the loss
  history and the explainability series, with the two feature names the explanation
  text quotes. The chart series built after them (curves, projections, residuals,
  learning curve, radar data, word cloud, layer activations) read the metrics but
  never feed back into these fields; they are not part of the embedding, and neither
  is the fixed delay that precedes the computation.
\<close>

record TrainingResult =
  metrics :: TrainingMetrics
  confusionMatrix :: "jsnum list list"
  featureImportance :: "FeatureImp list"
  lossHistory :: "EpochLog list"
  shapValues :: "FeatureValue list"
  limeValues :: "FeatureValue list"
  topFeatName :: string
  secondFeatName :: string
  modelCategory :: ModelCategory

text \<open>
  Each call of \<^verbatim>\<open>Math.random()\<close> is an input of the model, named after the value
  it helps to draw; the calls inside a loop or a \<^verbatim>\<open>map\<close> are indexed by the
  iteration.
\<close>

record Draws =
  draw_accuracy :: real
  draw_tp :: real
  draw_fp :: real
  draw_rmse :: real
  draw_mae :: real
  draw_loss :: "nat \<Rightarrow> real"
  draw_shap :: "nat \<Rightarrow> real"
  draw_lime :: "nat \<Rightarrow> real"

text \<open>\<^verbatim>\<open>Math.random()\<close> answers a number from 0 inclusive to 1 exclusive.\<close>

definition in_unit :: "real \<Rightarrow> bool" where
  "in_unit r = (0 \<le> r \<and> r < 1)"

definition valid_draws :: "Draws \<Rightarrow> bool" where
  "valid_draws rnd =
     (in_unit (draw_accuracy rnd) \<and> in_unit (draw_tp rnd) \<and> in_unit (draw_fp rnd) \<and>
      in_unit (draw_rmse rnd) \<and> in_unit (draw_mae rnd) \<and>
      (\<forall>i. in_unit (draw_loss rnd i)) \<and> (\<forall>i. in_unit (draw_shap rnd i)) \<and>
      (\<forall>i. in_unit (draw_lime rnd i)))"

subsection \<open>simulateBackendTraining\<close>

definition classificationModels :: "string list" where
  "classificationModels =
     [''Logistic Regression'', ''Random Forest'', ''XGBoost'', ''SVM'', ''Decision Tree'',
      ''Gradient Boosting'', ''AdaBoost'', ''K-Nearest Neighbors'', ''Naive Bayes'',
      ''CNN'', ''ANN'', ''RNN'', ''Simple Transformer'',
      ''TF-IDF Classifier'', ''DistilBERT'', ''BERT (Base)'', ''RoBERTa'']"

text \<open>The deep-learning names the training form offers.\<close>

definition deepLearningModels :: "string list" where
  "deepLearningModels =
     [''Artificial Neural Network (ANN)'', ''Convolutional Neural Network (CNN)'', ''LSTM'',
      ''Recurrent Neural Network (RNN)'', ''Simple Transformer'']"

definition baseAccuracy :: "ModelConfig \<Rightarrow> jsnum" where
  "baseAccuracy modelConfig =
     (let b = Fin 0.82;
          b = (if category modelConfig = DeepLearning then Fin 0.88 else b)
      in if tuning_enabled (tuning modelConfig) then num_add b (Fin 0.05) else b)"

definition maxCorrelation :: "FeatureImpact list \<Rightarrow> jsnum" where
  "maxCorrelation realImpacts =
     (if 0 < length realImpacts then Math_abs (impact (realImpacts ! 0)) else Fin 0.5)"

definition accuracyModifier :: "FeatureImpact list \<Rightarrow> jsnum" where
  "accuracyModifier realImpacts = num_mul (num_sub (maxCorrelation realImpacts) (Fin 0.5)) (Fin 0.2)"

definition actualAccuracy :: "Draws \<Rightarrow> ModelConfig \<Rightarrow> FeatureImpact list \<Rightarrow> jsnum" where
  "actualAccuracy rnd modelConfig realImpacts =
     Math_min (Fin 0.99) (Math_max (Fin 0.6)
       (num_add (num_add (baseAccuracy modelConfig) (accuracyModifier realImpacts))
                (num_mul (Fin (draw_accuracy rnd)) (Fin 0.05))))"

definition totalSamples :: jsnum where
  "totalSamples = Fin 200"

definition totalCorrect :: "jsnum \<Rightarrow> jsnum" where
  "totalCorrect actual = Math_round (num_mul totalSamples actual)"

definition totalWrong :: "jsnum \<Rightarrow> jsnum" where
  "totalWrong actual = num_sub totalSamples (totalCorrect actual)"

definition tp :: "Draws \<Rightarrow> jsnum \<Rightarrow> jsnum" where
  "tp rnd actual =
     Math_round (num_mul (totalCorrect actual) (num_add (Fin 0.5) (num_mul (Fin (draw_tp rnd)) (Fin 0.1))))"

definition tn :: "Draws \<Rightarrow> jsnum \<Rightarrow> jsnum" where
  "tn rnd actual = num_sub (totalCorrect actual) (tp rnd actual)"

definition fp :: "Draws \<Rightarrow> jsnum \<Rightarrow> jsnum" where
  "fp rnd actual =
     Math_round (num_mul (totalWrong actual) (num_add (Fin 0.4) (num_mul (Fin (draw_fp rnd)) (Fin 0.2))))"

definition fn :: "Draws \<Rightarrow> jsnum \<Rightarrow> jsnum" where
  "fn rnd actual = num_sub (totalWrong actual) (fp rnd actual)"

text \<open>The derived metrics and the \<^verbatim>\<open>metrics\<close> object.\<close>

definition precision_of :: "jsnum \<Rightarrow> jsnum \<Rightarrow> jsnum" where
  "precision_of tp' fp' = or_zero (num_div tp' (num_add tp' fp'))"

definition recall_of :: "jsnum \<Rightarrow> jsnum \<Rightarrow> jsnum" where
  "recall_of tp' fn' = or_zero (num_div tp' (num_add tp' fn'))"

definition f1Score_of :: "jsnum \<Rightarrow> jsnum \<Rightarrow> jsnum" where
  "f1Score_of p r = or_zero (num_div (num_mul (num_mul (Fin 2) p) r) (num_add p r))"

definition accuracy_of :: "jsnum \<Rightarrow> jsnum \<Rightarrow> jsnum" where
  "accuracy_of tp' tn' = num_div (num_add tp' tn') totalSamples"

definition make_metrics :: "Draws \<Rightarrow> bool \<Rightarrow> jsnum \<Rightarrow> jsnum \<Rightarrow> jsnum \<Rightarrow> jsnum \<Rightarrow> TrainingMetrics" where
  "make_metrics rnd isClassification tp' fp' fn' tn' =
     (let precision' = precision_of tp' fp';
          recall' = recall_of tp' fn';
          f1Score' = f1Score_of precision' recall';
          accuracy' = accuracy_of tp' tn'
      in \<lparr>accuracy = parseFloat_toFixed 4 accuracy',
          precision = parseFloat_toFixed 4 precision',
          recall = parseFloat_toFixed 4 recall',
          f1Score = parseFloat_toFixed 4 f1Score',
          auc = (if isClassification then Some (parseFloat_toFixed 4 (num_add accuracy' (Fin 0.02)))
                 else None),
          rmse = (if \<not> isClassification
                  then Some (parseFloat_toFixed 2 (num_mul (Fin (draw_rmse rnd)) (Fin 1000)))
                  else None),
          mae = (if \<not> isClassification
                 then Some (parseFloat_toFixed 2 (num_mul (Fin (draw_mae rnd)) (Fin 800)))
                 else None)\<rparr>)"

text \<open>The loop over the epochs, \<open>i\<close> running from 1 to \<open>epochs\<close>.\<close>

function lossLoop :: "(nat \<Rightarrow> real) \<Rightarrow> jsnum \<Rightarrow> nat \<Rightarrow> nat \<Rightarrow> jsnum \<Rightarrow> jsnum \<Rightarrow> EpochLog list" where
  "lossLoop rnd metricsAccuracy epochs i currLoss currAcc =
     (if i \<le> epochs then
        (let decay = Fin 0.9;
             currLoss' = Math_max (Fin 0.1)
               (num_add (num_mul currLoss decay) (num_mul (Fin (rnd i)) (Fin 0.02)));
             currAcc' = Math_min (num_add metricsAccuracy (Fin 0.02))
               (num_add currAcc (num_mul (num_sub metricsAccuracy currAcc) (Fin 0.2)))
         in \<lparr>epoch = i,
             loss = parseFloat_toFixed 4 currLoss',
             log_accuracy = parseFloat_toFixed 4 currAcc',
             val_loss = parseFloat_toFixed 4 (num_add currLoss' (Fin 0.05)),
             val_accuracy = parseFloat_toFixed 4 (num_sub currAcc' (Fin 0.03))\<rparr>
            # lossLoop rnd metricsAccuracy epochs (Suc i) currLoss' currAcc')
      else [])"
  by pat_completeness auto
termination
  by (relation "measure (\<lambda>(rnd, metricsAccuracy, epochs, i, currLoss, currAcc). Suc epochs - i)") auto

text \<open>The two \<^verbatim>\<open>map\<close> calls over the top eight impacts.\<close>

definition shap_of :: "Draws \<Rightarrow> FeatureImpact list \<Rightarrow> FeatureValue list" where
  "shap_of rnd topFeatures =
     map (\<lambda>(item, i). \<lparr>feature = fi_name item,
            val = num_mul (Math_abs (impact item))
                    (num_add (Fin 0.8) (num_mul (Fin (draw_shap rnd i)) (Fin 0.2)))\<rparr>)
       (zip topFeatures [0..<length topFeatures])"

definition lime_of :: "Draws \<Rightarrow> FeatureImpact list \<Rightarrow> FeatureValue list" where
  "lime_of rnd topFeatures =
     map (\<lambda>(item, i). \<lparr>feature = fi_name item,
            val = num_mul (impact item)
                    (num_add (Fin 0.5) (num_mul (Fin (draw_lime rnd i)) (Fin 0.5)))\<rparr>)
       (zip topFeatures [0..<length topFeatures])"

definition simulateBackendTraining ::
    "js_runtime \<Rightarrow> Draws \<Rightarrow> Dataset \<Rightarrow> ModelConfig \<Rightarrow> 'p \<Rightarrow> TrainingResult" where
  "simulateBackendTraining rt rnd dataset modelConfig preprocessing =
     (let isClassification = (modelName modelConfig \<in> set classificationModels);
          isDL = (category modelConfig = DeepLearning);
          realImpacts = calculateFeatureImpacts rt dataset (targetColumn modelConfig);
          actual = actualAccuracy rnd modelConfig realImpacts;
          metrics' = make_metrics rnd isClassification
                       (tp rnd actual) (fp rnd actual) (fn rnd actual) (tn rnd actual);
          epochs = (if isDL then 30 else 20);
          lossHistory' = lossLoop (draw_loss rnd) (accuracy metrics') epochs 1 (Fin 0.7) (Fin 0.5);
          topFeatures = take 8 realImpacts;
          shapValues' = shap_of rnd topFeatures;
          limeValues' = lime_of rnd topFeatures
      in \<lparr>metrics = metrics',
          confusionMatrix = [[tp rnd actual, fp rnd actual], [fn rnd actual, tn rnd actual]],
          featureImportance =
            map (\<lambda>s. \<lparr>imp_feature = feature s, importance = Math_abs (val s)\<rparr>) shapValues',
          lossHistory = lossHistory',
          shapValues = shapValues',
          limeValues = limeValues',
          topFeatName = (if 0 < length shapValues' then feature (shapValues' ! 0) else ''Feature X''),
          secondFeatName = (if 1 < length shapValues' then feature (shapValues' ! 1) else ''Feature Y''),
          modelCategory = category modelConfig\<rparr>)"

section \<open>Reference notions\<close>

text \<open>
  The notions the properties are stated with. They are not part of the program: each
  one writes down the words of the design document, to be compared with the code.
\<close>

text \<open>A sequence of finite numbers, as an array of cells.\<close>

definition numeric :: "real list \<Rightarrow> jsval list" where
  "numeric xs = map (\<lambda>a. JNum (Fin a)) xs"

text \<open>The two factors under the root and the numerator of Pearson's formula.\<close>

definition variance_term :: "real list \<Rightarrow> real" where
  "variance_term xs = real (length xs) * (\<Sum>a\<leftarrow>xs. a * a) - sum_list xs * sum_list xs"

definition covariance_term :: "real list \<Rightarrow> real list \<Rightarrow> real" where
  "covariance_term xs ys =
     real (length xs) * (\<Sum>(a, b)\<leftarrow>zip xs ys. a * b) - sum_list xs * sum_list ys"

text \<open>
  The values that the formula forms on the way, in exact arithmetic: the running sums,
  the products and squares with their running sums, and the terms of the numerator and
  of the denominator. A real is a double when rounding leaves it as it is, and the
  formula is computed without rounding error when each of these values is a double.
\<close>

fun running_sums :: "real \<Rightarrow> real list \<Rightarrow> real list" where
  "running_sums c [] = []"
| "running_sums c (a # as) = (c + a) # running_sums (c + a) as"

definition exact_steps :: "real list \<Rightarrow> real list \<Rightarrow> real list" where
  "exact_steps xs ys =
     (let n = real (length xs);
          xy = map (\<lambda>(a, b). a * b) (zip xs ys);
          xx = map (\<lambda>a. a * a) xs;
          yy = map (\<lambda>b. b * b) ys
      in running_sums 0 xs @ running_sums 0 ys @
         xy @ running_sums 0 xy @ xx @ running_sums 0 xx @ yy @ running_sums 0 yy @
         [n * sum_list xy, sum_list xs * sum_list ys, covariance_term xs ys,
          n * sum_list xx, sum_list xs * sum_list xs, variance_term xs,
          n * sum_list yy, sum_list ys * sum_list ys, variance_term ys,
          variance_term xs * variance_term ys])"

definition is_double :: "real \<Rightarrow> bool" where
  "is_double v = (binary64 v = Fin v)"

definition computed_exactly :: "real list \<Rightarrow> real list \<Rightarrow> bool" where
  "computed_exactly xs ys = list_all is_double (exact_steps xs ys)"

text \<open>The comparison \<^verbatim>\<open>>=\<close> of two numbers.\<close>

definition num_ge :: "jsnum \<Rightarrow> jsnum \<Rightarrow> bool" where
  "num_ge a b = (a \<noteq> NaN \<and> b \<noteq> NaN \<and> \<not> num_less a b)"

abbreviation (input) by_abs_impact :: "FeatureImpact \<Rightarrow> FeatureImpact \<Rightarrow> jsnum" where
  "by_abs_impact \<equiv> \<lambda>a b. num_sub (Math_abs (impact b)) (Math_abs (impact a))"

abbreviation (input) abs_ge :: "FeatureImpact \<Rightarrow> FeatureImpact \<Rightarrow> bool" where
  "abs_ge \<equiv> \<lambda>a b. num_ge (Math_abs (impact a)) (Math_abs (impact b))"

text \<open>The metrics recomputed from the four counts of a confusion matrix.\<close>

definition spec_precision :: "nat \<Rightarrow> nat \<Rightarrow> real" where
  "spec_precision TP FP = (if TP + FP = 0 then 0 else real TP / real (TP + FP))"

definition spec_recall :: "nat \<Rightarrow> nat \<Rightarrow> real" where
  "spec_recall TP FN = (if TP + FN = 0 then 0 else real TP / real (TP + FN))"

definition spec_f1 :: "real \<Rightarrow> real \<Rightarrow> real" where
  "spec_f1 p r = (if p + r = 0 then 0 else 2 * p * r / (p + r))"

definition spec_accuracy :: "nat \<Rightarrow> nat \<Rightarrow> real" where
  "spec_accuracy TP TN = real (TP + TN) / 200"

text \<open>A run time for the examples, which hold no string that arithmetic could meet.\<close>

definition sample_runtime :: js_runtime where
  "sample_runtime = \<lparr>StringToNumber = (\<lambda>s. NaN), NumberToString = (\<lambda>n. [])\<rparr>"

text \<open>A run for the examples: every draw is zero, no target column is chosen.\<close>

definition sample_draws :: Draws where
  "sample_draws = \<lparr>draw_accuracy = 0, draw_tp = 0, draw_fp = 0, draw_rmse = 0, draw_mae = 0,
     draw_loss = (\<lambda>i. 0), draw_shap = (\<lambda>i. 0), draw_lime = (\<lambda>i. 0)\<rparr>"

definition sample_config :: ModelConfig where
  "sample_config = \<lparr>category = MachineLearning, modelName = ''Random Forest'', targetColumn = [],
     hyperparameters = Map.empty,
     tuning = \<lparr>tuning_enabled = False, tuning_method = Grid, paramGrid = Map.empty\<rparr>,
     crossValidation = \<lparr>cv_enabled = False, kFold = Fin 5\<rparr>\<rparr>"

definition sample_dataset :: Dataset where
  "sample_dataset = \<lparr>ds_name = ''sample.csv'',
     rows = [[''a'' \<mapsto> JNum (Fin 1), ''b'' \<mapsto> JNum (Fin 5), ''y'' \<mapsto> JNum (Fin 1)],
             [''a'' \<mapsto> JNum (Fin 2), ''b'' \<mapsto> JNum (Fin 5), ''y'' \<mapsto> JNum (Fin 2)],
             [''a'' \<mapsto> JNum (Fin 3), ''b'' \<mapsto> JNum (Fin 5), ''y'' \<mapsto> JNum (Fin 4)]],
     columns = [\<lparr>col_name = ''a'', col_type = TNumber, missingCount = 0, uniqueCount = 3\<rparr>,
                \<lparr>col_name = ''b'', col_type = TNumber, missingCount = 0, uniqueCount = 1\<rparr>,
                \<lparr>col_name = ''y'', col_type = TNumber, missingCount = 0, uniqueCount = 3\<rparr>],
     totalRows = 3\<rparr>"

text \<open>
  A run of a model outside the classification list whose two error draws are just
  below one.
\<close>

definition edge_draws :: Draws where
  "edge_draws = \<lparr>draw_accuracy = 0, draw_tp = 0, draw_fp = 0,
     draw_rmse = 0.999999, draw_mae = 0.999999,
     draw_loss = (\<lambda>i. 0), draw_shap = (\<lambda>i. 0), draw_lime = (\<lambda>i. 0)\<rparr>"

definition lstm_config :: ModelConfig where
  "lstm_config = \<lparr>category = DeepLearning, modelName = ''LSTM'', targetColumn = ''y'',
     hyperparameters = Map.empty,
     tuning = \<lparr>tuning_enabled = True, tuning_method = Grid, paramGrid = Map.empty\<rparr>,
     crossValidation = \<lparr>cv_enabled = True, kFold = Fin 5\<rparr>\<rparr>"








text \<open>
  Label encoding in the words of the design document: the distinct values of a column
  in the order of their first occurrence, and for each value its position in that
  list. A cell that is \<^verbatim>\<open>NaN\<close> matches no entry and gets \<open>-1\<close>.
\<close>

fun distinct_values :: "jsval list \<Rightarrow> jsval list" where
  "distinct_values [] = []"
| "distinct_values (x # xs) = x # distinct_values (filter (\<lambda>y. y \<noteq> x) xs)"

definition position_in :: "jsval list \<Rightarrow> jsval \<Rightarrow> nat" where
  "position_in xs v = length (takeWhile (\<lambda>u. u \<noteq> v) xs)"

definition first_non_null_is_string :: "jsval list \<Rightarrow> bool" where
  "first_non_null_is_string raw =
     (case dropWhile (\<lambda>v. v = JNull) raw of [] \<Rightarrow> False | v # rest \<Rightarrow> is_string v)"

definition spec_label_encode :: "jsval list \<Rightarrow> jsval list" where
  "spec_label_encode raw =
     map (\<lambda>v. JNum (if v = JNum NaN then Fin (- 1)
                     else Fin (real (position_in (distinct_values raw) v)))) raw"

text \<open>A table with a numeric, a boolean and a string column.\<close>

definition flag_column :: DatasetColumn where
  "flag_column = \<lparr>col_name = ''t'', col_type = TBoolean, missingCount = 0, uniqueCount = 2\<rparr>"

definition bool_dataset :: Dataset where
  "bool_dataset = \<lparr>ds_name = ''flags.csv'',
     rows = [[''f'' \<mapsto> JNum (Fin 1), ''t'' \<mapsto> JBool True, ''s'' \<mapsto> JStr ''b''],
             [''f'' \<mapsto> JNum (Fin 2), ''t'' \<mapsto> JBool False, ''s'' \<mapsto> JStr ''a'']],
     columns = [\<lparr>col_name = ''f'', col_type = TNumber, missingCount = 0, uniqueCount = 2\<rparr>,
                flag_column],
     totalRows = 2\<rparr>"

section \<open>Sums of squares\<close>

lemma cs_step:
  fixes A B C a b :: real
  assumes "C\<^sup>2 \<le> A * B" "0 \<le> A" "0 \<le> B"
  shows "2 * a * b * C \<le> A * b\<^sup>2 + B * a\<^sup>2"
proof (cases "A = 0")
  case True
  with assms have "C = 0" by simp
  with True assms show ?thesis by simp
next
  case False
  with assms have Apos: "0 < A" by simp
  have "0 \<le> (A * b - C * a)\<^sup>2" by simp
  also have "(A * b - C * a)\<^sup>2 = A * (A * b\<^sup>2) + C\<^sup>2 * a\<^sup>2 - A * (2 * a * b * C)"
    by (simp add: power2_eq_square algebra_simps)
  also have "\<dots> \<le> A * (A * b\<^sup>2) + (A * B) * a\<^sup>2 - A * (2 * a * b * C)"
    using assms(1) by (simp add: mult_right_mono)
  also have "\<dots> = A * (A * b\<^sup>2 + B * a\<^sup>2 - 2 * a * b * C)"
    by (simp add: algebra_simps)
  finally have "0 \<le> A * (A * b\<^sup>2 + B * a\<^sup>2 - 2 * a * b * C)" .
  with Apos have "0 \<le> A * b\<^sup>2 + B * a\<^sup>2 - 2 * a * b * C"
    by (simp add: zero_le_mult_iff)
  then show ?thesis by simp
qed

lemma sum_list_sq_nonneg: "0 \<le> sum_list (map (\<lambda>p. (f p :: real)\<^sup>2) ps)"
  by (induction ps) auto

lemma cauchy_schwarz_list:
  fixes f g :: "'a \<Rightarrow> real"
  shows "(sum_list (map (\<lambda>p. f p * g p) ps))\<^sup>2
         \<le> sum_list (map (\<lambda>p. (f p)\<^sup>2) ps) * sum_list (map (\<lambda>p. (g p)\<^sup>2) ps)"
proof (induction ps)
  case Nil
  then show ?case by simp
next
  case (Cons p ps)
  let ?A = "sum_list (map (\<lambda>p. (f p)\<^sup>2) ps)"
  let ?B = "sum_list (map (\<lambda>p. (g p)\<^sup>2) ps)"
  let ?C = "sum_list (map (\<lambda>p. f p * g p) ps)"
  have step: "2 * f p * g p * ?C \<le> ?A * (g p)\<^sup>2 + ?B * (f p)\<^sup>2"
    by (rule cs_step [OF Cons.IH sum_list_sq_nonneg sum_list_sq_nonneg])
  have "(f p * g p + ?C)\<^sup>2 = ?C\<^sup>2 + 2 * f p * g p * ?C + (f p)\<^sup>2 * (g p)\<^sup>2"
    by (simp add: power2_eq_square algebra_simps)
  also have "\<dots> \<le> ?A * ?B + (?A * (g p)\<^sup>2 + ?B * (f p)\<^sup>2) + (f p)\<^sup>2 * (g p)\<^sup>2"
    using Cons.IH step by simp
  also have "\<dots> = ((f p)\<^sup>2 + ?A) * ((g p)\<^sup>2 + ?B)"
    by (simp add: algebra_simps)
  finally show ?case by simp
qed

lemma centred_sum:
  fixes f g :: "'a \<Rightarrow> real"
  shows "sum_list (map (\<lambda>p. (f p - c) * (g p - d)) ps)
         = sum_list (map (\<lambda>p. f p * g p) ps) - d * sum_list (map f ps) - c * sum_list (map g ps)
           + real (length ps) * (c * d)"
  by (induction ps) (simp_all add: algebra_simps)

lemma centred_product:
  fixes f g :: "'a \<Rightarrow> real"
  assumes "ps \<noteq> []"
  shows "real (length ps) * sum_list (map (\<lambda>p. (f p - sum_list (map f ps) / real (length ps)) * (g p - sum_list (map g ps) / real (length ps))) ps)
         = real (length ps) * sum_list (map (\<lambda>p. f p * g p) ps) - sum_list (map f ps) * sum_list (map g ps)"
proof -
  have npos: "real (length ps) \<noteq> 0" using assms by simp
  show ?thesis
    unfolding centred_sum using npos by (simp add: field_simps)
qed

lemma pearson_cs:
  fixes f g :: "'a \<Rightarrow> real"
  defines "n \<equiv> \<lambda>ps::'a list. real (length ps)"
  shows "(n ps * sum_list (map (\<lambda>p. f p * g p) ps) - sum_list (map f ps) * sum_list (map g ps))\<^sup>2
    \<le> (n ps * sum_list (map (\<lambda>p. f p * f p) ps) - sum_list (map f ps) * sum_list (map f ps))
      * (n ps * sum_list (map (\<lambda>p. g p * g p) ps) - sum_list (map g ps) * sum_list (map g ps))"
proof (cases "ps = []")
  case True
  then show ?thesis by simp
next
  case False
  let ?a = "\<lambda>p. f p - sum_list (map f ps) / real (length ps)"
  let ?b = "\<lambda>p. g p - sum_list (map g ps) / real (length ps)"
  have ab: "n ps * sum_list (map (\<lambda>p. ?a p * ?b p) ps) = n ps * sum_list (map (\<lambda>p. f p * g p) ps) - sum_list (map f ps) * sum_list (map g ps)"
    unfolding n_def by (rule centred_product [OF False])
  have aa: "n ps * sum_list (map (\<lambda>p. (?a p)\<^sup>2) ps) = n ps * sum_list (map (\<lambda>p. f p * f p) ps) - sum_list (map f ps) * sum_list (map f ps)"
    unfolding n_def power2_eq_square by (rule centred_product [OF False])
  have bb: "n ps * sum_list (map (\<lambda>p. (?b p)\<^sup>2) ps) = n ps * sum_list (map (\<lambda>p. g p * g p) ps) - sum_list (map g ps) * sum_list (map g ps)"
    unfolding n_def power2_eq_square by (rule centred_product [OF False])
  have "(n ps * sum_list (map (\<lambda>p. ?a p * ?b p) ps))\<^sup>2 = (n ps)\<^sup>2 * (sum_list (map (\<lambda>p. ?a p * ?b p) ps))\<^sup>2"
    by (simp add: power_mult_distrib)
  also have "\<dots> \<le> (n ps)\<^sup>2 * (sum_list (map (\<lambda>p. (?a p)\<^sup>2) ps) * sum_list (map (\<lambda>p. (?b p)\<^sup>2) ps))"
    by (rule mult_left_mono [OF cauchy_schwarz_list]) simp
  also have "\<dots> = (n ps * sum_list (map (\<lambda>p. (?a p)\<^sup>2) ps)) * (n ps * sum_list (map (\<lambda>p. (?b p)\<^sup>2) ps))"
    by (simp add: power2_eq_square)
  finally show ?thesis unfolding ab aa bb .
qed

lemma variance_term_nonneg:
  fixes f :: "'a \<Rightarrow> real"
  shows "0 \<le> real (length ps) * sum_list (map (\<lambda>p. f p * f p) ps) - sum_list (map f ps) * sum_list (map f ps)"
proof (cases "ps = []")
  case True
  then show ?thesis by simp
next
  case False
  let ?a = "\<lambda>p. f p - sum_list (map f ps) / real (length ps)"
  have "0 \<le> real (length ps) * sum_list (map (\<lambda>p. (?a p)\<^sup>2) ps)"
    by (simp add: sum_list_sq_nonneg)
  also have "\<dots> = real (length ps) * sum_list (map (\<lambda>p. f p * f p) ps) - sum_list (map f ps) * sum_list (map f ps)"
    unfolding power2_eq_square by (rule centred_product [OF False])
  finally show ?thesis .
qed



section \<open>Rounding to the nearest double\<close>

lemma round_even_of_int [simp]: "round_even (of_int m) = m"
  by (simp add: round_even_def)

lemma round_even_0 [simp]: "round_even 0 = 0"
  using round_even_of_int [of 0] by simp

lemma round_even_ge: "of_int m \<le> t \<Longrightarrow> m \<le> round_even t"
  unfolding round_even_def Let_def
  by (smt (verit) le_floor_iff)

lemma round_even_le: "t \<le> of_int m \<Longrightarrow> round_even t \<le> m"
proof -
  assume a: "t \<le> of_int m"
  have f: "of_int \<lfloor>t\<rfloor> \<le> t" "t < of_int \<lfloor>t\<rfloor> + 1" by linarith+
  show ?thesis
  proof (cases "t = of_int m")
    case True then show ?thesis by simp
  next
    case False
    with a have "t < of_int m" by simp
    then have "\<lfloor>t\<rfloor> < m" using f by linarith
    then have "\<lfloor>t\<rfloor> + 1 \<le> m" by simp
    then show ?thesis unfolding round_even_def Let_def by auto
  qed
qed

lemma round_even_minus: "round_even (- t) = - round_even t"
proof (cases "t = of_int \<lfloor>t\<rfloor>")
  case True
  then obtain m where "t = of_int m" by metis
  then show ?thesis by (simp flip: of_int_minus)
next
  case False
  have f: "of_int \<lfloor>t\<rfloor> < t" "t < of_int \<lfloor>t\<rfloor> + 1" using False by linarith+
  have fl: "\<lfloor>- t\<rfloor> = - \<lfloor>t\<rfloor> - 1" using f by linarith
  show ?thesis unfolding round_even_def Let_def fl using f by auto
qed

lemma ulp_pos [simp]: "0 < ulp x"
  by (simp add: ulp_def)

lemma exponent_minus [simp]: "exponent (- x) = exponent x"
  by (simp add: exponent_def)

lemma ulp_minus [simp]: "ulp (- x) = ulp x"
  by (simp add: ulp_def)

lemma exponent_eq:
  assumes "2 powr of_int e \<le> \<bar>x\<bar>" "\<bar>x\<bar> < 2 powr (of_int e + 1)" "- 1022 \<le> e"
  shows "exponent x = e"
proof -
  have "0 < \<bar>x\<bar>" using assms(1) by (smt (verit) powr_gt_zero)
  then have "\<lfloor>log 2 \<bar>x\<bar>\<rfloor> = e" using assms(1,2) by (simp add: floor_log_eq_powr_iff)
  then show ?thesis using assms(3) by (simp add: exponent_def)
qed

lemma exponent_nat:
  assumes "2 ^ k \<le> \<bar>x\<bar>" "\<bar>x\<bar> < 2 ^ Suc k"
  shows "exponent x = int k"
proof (rule exponent_eq)
  show "2 powr of_int (int k) \<le> \<bar>x\<bar>" using assms(1) by (simp add: powr_realpow)
  have "2 powr (of_int (int k) + 1) = (2::real) ^ Suc k"
    by (simp add: powr_add powr_realpow)
  then show "\<bar>x\<bar> < 2 powr (of_int (int k) + 1)" using assms(2) by simp
  show "- 1022 \<le> int k" by simp
qed

lemma ulp_nat:
  assumes "2 ^ k \<le> \<bar>x\<bar>" "\<bar>x\<bar> < 2 ^ Suc k" "52 \<le> k"
  shows "ulp x = 2 ^ (k - 52)"
proof -
  have "real_of_int (int k) - 52 = real (k - 52)" using assms(3) by simp
  then show ?thesis
    unfolding ulp_def exponent_nat [OF assms(1,2)] by (simp only: powr_realpow zero_less_numeral)
qed

lemma binary64_large:
  assumes "2 ^ k \<le> \<bar>x\<bar>" "\<bar>x\<bar> < 2 ^ Suc k" "52 \<le> k" "k \<le> 1022"
  shows "binary64 x = Fin (of_int (round_even (x / 2 ^ (k - 52))) * 2 ^ (k - 52))"
proof -
  let ?q = "(2::real) ^ (k - 52)"
  let ?m = "round_even (x / ?q)"
  have u: "ulp x = ?q" by (rule ulp_nat [OF assms(1-3)])
  have "0 < \<bar>x\<bar>" using assms(1) zero_less_power [of "2::real" k] by linarith
  then have x0: "x \<noteq> 0" by simp
  have e: "(k - 52) + 53 = Suc k" using assms(3) by simp
  have q: "?q * 2 ^ 53 = 2 ^ Suc k" unfolding power_add [symmetric] e ..
  have "\<bar>x\<bar> / ?q \<le> 2 ^ 53" using assms(2) q by (simp add: field_simps)
  then have b: "x / ?q \<le> of_int (2 ^ 53)" "of_int (- (2 ^ 53)) \<le> x / ?q"
    by (simp_all add: abs_le_iff field_simps)
  have "?m \<le> 2 ^ 53" "- (2 ^ 53) \<le> ?m"
    using round_even_le [OF b(1)] round_even_ge [OF b(2)] by simp_all
  then have "\<bar>?m\<bar> \<le> 2 ^ 53" by simp
  then have "\<bar>real_of_int ?m\<bar> \<le> 2 ^ 53" by (metis of_int_abs of_int_le_iff of_int_numeral of_int_power)
  then have "\<bar>real_of_int ?m * ?q\<bar> \<le> 2 ^ 53 * ?q"
    by (simp add: abs_mult)
  also have "\<dots> = 2 ^ Suc k" using q by (simp add: mult.commute)
  also have "\<dots> \<le> (2::real) ^ 1023" using assms(4) by (intro power_increasing) simp_all
  also have "\<dots> < (2::real) ^ 1024" by simp
  finally have "\<not> 2 ^ 1024 \<le> \<bar>real_of_int ?m * ?q\<bar>" by simp
  then show ?thesis using x0 unfolding binary64_def Let_def u by simp
qed


lemma binary64_multiple:
  assumes "x = of_int m * ulp x" "\<bar>x\<bar> < 2 ^ 1024"
  shows "binary64 x = Fin x"
proof (cases "x = 0")
  case True
  then show ?thesis by (simp add: binary64_def)
next
  case False
  have "x / ulp x = of_int m" using assms(1) ulp_pos [of x]
    by (metis nonzero_mult_div_cancel_right less_irrefl)
  then have "of_int (round_even (x / ulp x)) * ulp x = x" using assms(1) by simp
  then show ?thesis using False assms(2) by (simp add: binary64_def)
qed

lemma binary64_of_int:
  assumes "\<bar>m\<bar> \<le> 2 ^ 53"
  shows "binary64 (of_int m) = Fin (of_int m)"
proof (cases "m = 0")
  case True
  then show ?thesis by (simp add: binary64_def)
next
  case False
  define x :: real where "x = of_int m"
  define e where "e = \<lfloor>log 2 \<bar>x\<bar>\<rfloor>"
  have x1: "1 \<le> \<bar>x\<bar>" using False unfolding x_def by (metis of_int_abs of_int_1_le_iff zero_less_abs_iff int_one_le_iff_zero_less)
  have xb: "\<bar>x\<bar> \<le> 2 ^ 53"
    using assms unfolding x_def by (metis of_int_abs of_int_le_iff of_int_numeral of_int_power)
  have e0: "0 \<le> e" unfolding e_def using x1 by simp
  have b: "2 powr of_int e \<le> \<bar>x\<bar>" "\<bar>x\<bar> < 2 powr (of_int e + 1)"
    using floor_log_eq_powr_iff [of "\<bar>x\<bar>" 2 e] x1 e_def by simp_all
  have ex: "exponent x = e" using e0 by (simp add: exponent_def e_def)
  have p53: "(2::real) powr 53 = 2 ^ 53" by simp
  have "(2::real) powr of_int e \<le> 2 powr 53" unfolding p53 using b(1) xb by linarith
  then have "real_of_int e \<le> 53" by (simp only: powr_le_cancel_iff one_less_numeral_iff semiring_norm)
  then have e53: "e \<le> 53" by simp
  have big: "\<bar>x\<bar> < 2 ^ 1024"
  proof -
    have "(2::real) ^ 53 < 2 ^ 1024" by (rule power_strict_increasing) simp_all
    with xb show ?thesis by linarith
  qed
  have "\<exists>j. x = of_int j * ulp x"
  proof (cases "e \<le> 52")
    case True
    define d where "d = nat (52 - e)"
    have eq: "real_of_int e - 52 = - real d" using True by (simp add: d_def)
    have "ulp x = 2 powr (- real d)" unfolding ulp_def ex eq ..
    also have "\<dots> = 1 / 2 ^ d" by (simp add: powr_minus powr_realpow field_simps)
    finally have "x = of_int (m * 2 ^ d) * ulp x" by (simp add: x_def)
    then show ?thesis by blast
  next
    case False
    with e53 have e: "e = 53" by simp
    have "2 powr of_int e = (2::real) ^ 53" unfolding e by simp
    with b(1) xb have "\<bar>x\<bar> = 2 ^ 53" by linarith
    then have m: "\<bar>m\<bar> = 2 ^ 53" unfolding x_def
      by (metis of_int_abs of_int_eq_iff of_int_numeral of_int_power)
    have u: "ulp x = 2" unfolding ulp_def ex e by simp
    from m have "m = 2 ^ 53 \<or> m = - (2 ^ 53)" by linarith
    then have h: "x = of_int (m div 2) * 2" unfolding x_def by auto
    have "x = of_int (m div 2) * ulp x" unfolding u by (rule h)
    then show ?thesis by blast
  qed
  then obtain j where "x = of_int j * ulp x" ..
  from binary64_multiple [OF this big] show ?thesis by (simp add: x_def)
qed

lemma binary64_numeral: "numeral n \<le> (2::int) ^ 53 \<Longrightarrow> binary64 (numeral n) = Fin (numeral n)"
  using binary64_of_int [of "numeral n"] by simp

lemma binary64_neg_numeral: "numeral n \<le> (2::int) ^ 53 \<Longrightarrow> binary64 (- numeral n) = Fin (- numeral n)"
  using binary64_of_int [of "- numeral n"] by simp

lemma binary64_0 [simp]: "binary64 0 = Fin 0"
  by (simp add: binary64_def)

lemma binary64_1 [simp]: "binary64 1 = Fin 1"
  using binary64_of_int [of 1] by simp



lemma binary64_cases:
  "binary64 x = (if 2 ^ 1024 \<le> \<bar>of_int (round_even (x / ulp x)) * ulp x\<bar> then signed_inf x
                 else Fin (of_int (round_even (x / ulp x)) * ulp x))"
  by (cases "x = 0") (simp_all add: binary64_def Let_def)

lemma binary64_fixedD:
  assumes "binary64 a = Fin a"
  shows "a = of_int (round_even (a / ulp a)) * ulp a" "\<bar>a\<bar> < 2 ^ 1024"
proof -
  have n: "\<not> 2 ^ 1024 \<le> \<bar>of_int (round_even (a / ulp a)) * ulp a\<bar>"
    using assms unfolding binary64_cases [of a] by (auto simp: signed_inf_def split: if_splits)
  then show "a = of_int (round_even (a / ulp a)) * ulp a"
    using assms unfolding binary64_cases [of a] by simp
  with n show "\<bar>a\<bar> < 2 ^ 1024" by simp
qed

lemma exponent_mono:
  assumes "0 < a" "a \<le> v"
  shows "exponent a \<le> exponent v"
proof -
  have "log 2 \<bar>a\<bar> \<le> log 2 \<bar>v\<bar>" using assms by simp
  then have "\<lfloor>log 2 \<bar>a\<bar>\<rfloor> \<le> \<lfloor>log 2 \<bar>v\<bar>\<rfloor>" by (rule floor_mono)
  then show ?thesis unfolding exponent_def by simp
qed

lemma exponent_lower:
  assumes "0 < x" "- 1022 < exponent x"
  shows "2 powr of_int (exponent x) \<le> x"
proof -
  have e: "exponent x = \<lfloor>log 2 \<bar>x\<bar>\<rfloor>" using assms(2) unfolding exponent_def by linarith
  show ?thesis
    using floor_log_eq_powr_iff [of x 2 "exponent x"] assms(1) e by simp
qed

lemma exponent_upper:
  assumes "0 < x"
  shows "x < 2 powr (of_int (exponent x) + 1)"
proof -
  have "x < 2 powr (of_int \<lfloor>log 2 x\<rfloor> + 1)"
    using floor_log_eq_powr_iff [of x 2 "\<lfloor>log 2 x\<rfloor>"] assms by simp
  also have "\<dots> \<le> 2 powr (of_int (exponent x) + 1)"
    using assms by (simp add: exponent_def)
  finally show ?thesis .
qed

lemma ulp_scale: "2 powr of_int (exponent x) = 2 ^ 52 * ulp x"
proof -
  have "(2::real) ^ 52 = 2 powr 52" by simp
  then have "2 ^ 52 * ulp x = 2 powr (52 + (of_int (exponent x) - 52))"
    unfolding ulp_def by (simp only: powr_add)
  then show ?thesis by simp
qed

lemma ulp_scale_Suc: "2 powr (of_int (exponent x) + 1) = 2 ^ 53 * ulp x"
proof -
  have "(2::real) ^ 53 = 2 powr 53" by simp
  then have "2 ^ 53 * ulp x = 2 powr (53 + (of_int (exponent x) - 52))"
    unfolding ulp_def by (simp only: powr_add)
  also have "53 + (real_of_int (exponent x) - 52) = real_of_int (exponent x) + 1" by simp
  finally show ?thesis by simp
qed

lemma ulp_mono: "exponent a \<le> exponent v \<Longrightarrow> ulp a \<le> ulp v"
  by (simp add: ulp_def)

lemma rounded_lower:
  assumes "0 < a" "a \<le> v" "a = of_int (round_even (a / ulp a)) * ulp a"
  shows "a \<le> of_int (round_even (v / ulp v)) * ulp v"
proof (cases "exponent a = exponent v")
  case True
  then have u: "ulp a = ulp v" by (simp add: ulp_def)
  define m where "m = round_even (a / ulp a)"
  have am: "a = of_int m * ulp v" using assms(3) unfolding m_def u .
  have "of_int m \<le> v / ulp v"
    using assms(2) am ulp_pos [of v] by (simp add: pos_le_divide_eq)
  then have "m \<le> round_even (v / ulp v)" by (rule round_even_ge)
  then have "of_int m * ulp v \<le> of_int (round_even (v / ulp v)) * ulp v"
    using ulp_pos [of v] by simp
  with am show ?thesis by simp
next
  case False
  with exponent_mono [OF assms(1,2)] have lt: "exponent a < exponent v" by simp
  have v0: "0 < v" using assms(1,2) by simp
  have "- 1022 \<le> exponent a" by (simp add: exponent_def)
  with lt have "- 1022 < exponent v" by simp
  from exponent_lower [OF v0 this] have "2 ^ 52 * ulp v \<le> v" unfolding ulp_scale .
  then have "of_int (2 ^ 52) \<le> v / ulp v" using ulp_pos [of v] by (simp add: pos_le_divide_eq)
  then have "2 ^ 52 \<le> round_even (v / ulp v)" by (rule round_even_ge)
  then have "(2::real) ^ 52 \<le> of_int (round_even (v / ulp v))"
    by (metis of_int_le_iff of_int_numeral of_int_power)
  then have "2 ^ 52 * ulp v \<le> of_int (round_even (v / ulp v)) * ulp v"
    using ulp_pos [of v] by simp
  then have ge: "2 powr of_int (exponent v) \<le> of_int (round_even (v / ulp v)) * ulp v"
    unfolding ulp_scale .
  have "a < 2 powr (of_int (exponent a) + 1)" by (rule exponent_upper [OF assms(1)])
  also have "\<dots> \<le> 2 powr of_int (exponent v)" using lt by simp
  finally show ?thesis using ge by linarith
qed

lemma rounded_upper:
  assumes "0 < v" "v \<le> a" "a = of_int (round_even (a / ulp a)) * ulp a"
  shows "of_int (round_even (v / ulp v)) * ulp v \<le> a"
proof (cases "exponent v = exponent a")
  case True
  then have u: "ulp a = ulp v" by (simp add: ulp_def)
  define m where "m = round_even (a / ulp a)"
  have am: "a = of_int m * ulp v" using assms(3) unfolding m_def u .
  have "v / ulp v \<le> of_int m"
    using assms(2) am ulp_pos [of v] by (simp add: pos_divide_le_eq)
  then have "round_even (v / ulp v) \<le> m" by (rule round_even_le)
  then have "of_int (round_even (v / ulp v)) * ulp v \<le> of_int m * ulp v"
    using ulp_pos [of v] by simp
  with am show ?thesis by simp
next
  case False
  with exponent_mono [OF assms(1,2)] have lt: "exponent v < exponent a" by simp
  have a0: "0 < a" using assms(1,2) by simp
  have "- 1022 \<le> exponent v" by (simp add: exponent_def)
  with lt have "- 1022 < exponent a" by simp
  from exponent_lower [OF a0 this] have lo: "2 powr of_int (exponent a) \<le> a" .
  have "v < 2 ^ 53 * ulp v" using exponent_upper [OF assms(1)] unfolding ulp_scale_Suc .
  then have "v / ulp v \<le> of_int (2 ^ 53)" using ulp_pos [of v] by (simp add: pos_divide_le_eq)
  then have "round_even (v / ulp v) \<le> 2 ^ 53" by (rule round_even_le)
  then have "of_int (round_even (v / ulp v)) \<le> (2::real) ^ 53"
    by (metis of_int_le_iff of_int_numeral of_int_power)
  then have "of_int (round_even (v / ulp v)) * ulp v \<le> 2 ^ 53 * ulp v"
    using ulp_pos [of v] by simp
  then have "of_int (round_even (v / ulp v)) * ulp v \<le> 2 powr (of_int (exponent v) + 1)"
    unfolding ulp_scale_Suc .
  also have "\<dots> \<le> 2 powr of_int (exponent a)" using lt by simp
  finally show ?thesis using lo by linarith
qed

lemma rounded_minus:
  "of_int (round_even (- v / ulp (- v))) * ulp (- v) = - (of_int (round_even (v / ulp v)) * ulp v)"
  using round_even_minus [of "v / ulp v"] by simp

lemma rounded_nonneg: "0 \<le> v \<Longrightarrow> 0 \<le> of_int (round_even (v / ulp v)) * ulp v"
proof -
  assume "0 \<le> v"
  then have "of_int 0 \<le> v / ulp v" using ulp_pos [of v] by (simp add: divide_nonneg_pos)
  then have "0 \<le> round_even (v / ulp v)" by (rule round_even_ge)
  then have "0 \<le> real_of_int (round_even (v / ulp v))" by simp
  then show ?thesis using ulp_pos [of v] by (simp add: mult_nonneg_nonneg less_imp_le)
qed

lemma binary64_lower:
  assumes "binary64 a = Fin a" "a \<le> v"
  shows "num_ge (binary64 v) (Fin a)"
proof -
  let ?R = "\<lambda>x. of_int (round_even (x / ulp x)) * ulp x"
  note fa = binary64_fixedD [OF assms(1)]
  consider "0 < v" "0 < a" | "0 \<le> v" "a \<le> 0" | "v < 0" using assms(2) by linarith
  then show ?thesis
  proof cases
    case 1
    from rounded_lower [OF 1(2) assms(2) fa(1)] have "a \<le> ?R v" .
    then show ?thesis using 1(1) unfolding binary64_cases [of v]
      by (simp add: num_ge_def signed_inf_def)
  next
    case 2
    from rounded_nonneg [OF 2(1)] 2(2) have "a \<le> ?R v" by linarith
    moreover have "v = 0 \<Longrightarrow> ?R v = 0" by simp
    ultimately show ?thesis using 2 unfolding binary64_cases [of v]
      by (auto simp: num_ge_def signed_inf_def)
  next
    case 3
    then have p: "0 < - v" "- v \<le> - a" using assms(2) by simp_all
    have f: "- a = ?R (- a)" using fa(1) rounded_minus [of a] by simp
    from rounded_upper [OF p f] have "?R (- v) \<le> - a" .
    then have le: "a \<le> ?R v" using rounded_minus [of v] by simp
    have "?R v \<le> 0" using rounded_nonneg [of "- v"] p(1) rounded_minus [of v] by simp
    with le fa(2) 3 assms(2) have "\<bar>?R v\<bar> < 2 ^ 1024" by simp
    then show ?thesis using le unfolding binary64_cases [of v]
      by (simp add: num_ge_def)
  qed
qed

lemma binary64_minus: "binary64 (- x) = (case binary64 x of Fin y \<Rightarrow> Fin (- y) | PInf \<Rightarrow> NInf | NInf \<Rightarrow> PInf | NaN \<Rightarrow> NaN)"
  unfolding binary64_cases [of x] binary64_cases [of "- x"] rounded_minus
  by (simp add: signed_inf_def)

lemma binary64_fixed_minus: "binary64 a = Fin a \<Longrightarrow> binary64 (- a) = Fin (- a)"
  by (simp add: binary64_minus)

lemma binary64_upper:
  assumes "binary64 a = Fin a" "v \<le> a"
  shows "num_ge (Fin a) (binary64 v)"
proof -
  have "num_ge (binary64 (- v)) (Fin (- a))"
    by (rule binary64_lower [OF binary64_fixed_minus [OF assms(1)]]) (use assms(2) in simp)
  then show ?thesis
    unfolding binary64_minus [of v] by (cases "binary64 v") (simp_all add: num_ge_def)
qed

lemma binary64_minus_1 [simp]: "binary64 (- 1) = Fin (- 1)"
  using binary64_of_int [of "- 1"] by simp

section \<open>Properties of the correlation engine\<close>

subsection \<open>Pearson's formula on finite numbers\<close>

lemma variance_term_ge0: "0 \<le> variance_term xs"
  unfolding variance_term_def using variance_term_nonneg [of xs "\<lambda>a. a"] by simp


lemma cov_sq_le: 
  assumes "length xs = length ys"
  shows "(covariance_term xs ys)\<^sup>2 \<le> variance_term xs * variance_term ys"
proof -
  have f: "map fst (zip xs ys) = xs" and g: "map snd (zip xs ys) = ys"
    using assms by simp_all
  have l: "length (zip xs ys) = length xs" "length ys = length xs" using assms by simp_all
  have a: "(\<Sum>p\<leftarrow>zip xs ys. fst p * fst p) = (\<Sum>a\<leftarrow>xs. a * a)"
    using arg_cong [OF f, of "\<lambda>l. sum_list (map (\<lambda>a. a * a) l)"] by (simp add: comp_def)
  have b: "(\<Sum>p\<leftarrow>zip xs ys. snd p * snd p) = (\<Sum>a\<leftarrow>ys. a * a)"
    using arg_cong [OF g, of "\<lambda>l. sum_list (map (\<lambda>a. a * a) l)"] by (simp add: comp_def)
  have c: "(\<Sum>(a, b)\<leftarrow>zip xs ys. a * b) = (\<Sum>p\<leftarrow>zip xs ys. fst p * snd p)"
    by (simp add: case_prod_unfold)
  show ?thesis
    using pearson_cs [of "zip xs ys" fst snd]
    unfolding covariance_term_def variance_term_def c l
    by (simp only: f g l a b)
qed

lemma js_add_fin: "js_add rt (JNum (Fin a)) (JNum (Fin b)) = JNum (binary64 (a + b))"
  by (simp add: js_add_def)

lemma js_mul_fin: "js_mul rt (JNum (Fin a)) (JNum (Fin b)) = binary64 (a * b)"
  by (simp add: js_mul_def)

lemma num_sub_fin [simp]: "num_sub (Fin a) (Fin b) = Fin (a - b)"
  by (simp add: num_sub_def)

lemma js_sub_fin: "js_sub (Fin a) (Fin b) = binary64 (a - b)"
  by (simp add: js_sub_def)

lemma foldl_sum_exact:
  "list_all is_double (running_sums c xs) \<Longrightarrow>
   foldl (\<lambda>a b. js_add rt a b) (JNum (Fin c)) (numeric xs) = JNum (Fin (c + sum_list xs))"
  by (induction xs arbitrary: c) (simp_all add: numeric_def add.assoc js_add_fin is_double_def)

lemma foldl_squares_exact:
  "list_all is_double (map (\<lambda>a. a * a) xs) \<Longrightarrow>
   list_all is_double (running_sums c (map (\<lambda>a. a * a) xs)) \<Longrightarrow>
   foldl (\<lambda>sum xi. js_add rt sum (JNum (js_mul rt xi xi))) (JNum (Fin c)) (numeric xs)
   = JNum (Fin (c + (\<Sum>a\<leftarrow>xs. a * a)))"
  by (induction xs arbitrary: c)
     (simp_all add: numeric_def add.assoc js_add_fin js_mul_fin is_double_def)

lemma foldl_products_exact:
  "length xs = length ys \<Longrightarrow> length pre = k \<Longrightarrow>
   list_all is_double (map (\<lambda>(a, b). a * b) (zip xs ys)) \<Longrightarrow>
   list_all is_double (running_sums c (map (\<lambda>(a, b). a * b) (zip xs ys))) \<Longrightarrow>
   foldl (\<lambda>sum (xi, i). js_add rt sum (JNum (js_mul rt xi (at_index (numeric (pre @ ys)) i))))
     (JNum (Fin c)) (zip (numeric xs) [k..<k + length xs])
   = JNum (Fin (c + (\<Sum>(a, b)\<leftarrow>zip xs ys. a * b)))"
proof (induction xs ys arbitrary: c k pre rule: list_induct2)
  case Nil
  then show ?case by (simp add: numeric_def)
next
  case (Cons x xs y ys)
  have at: "at_index (numeric (pre @ y # ys)) k = JNum (Fin y)"
    using Cons.prems by (simp add: at_index_def numeric_def nth_append)
  have up: "[k..<k + length (x # xs)] = k # [Suc k..<Suc k + length xs]"
    using upt_conv_Cons [of k "k + length (x # xs)"] by simp
  have d: "binary64 (x * y) = Fin (x * y)" "binary64 (c + x * y) = Fin (c + x * y)"
    using Cons.prems by (simp_all add: is_double_def)
  have "foldl (\<lambda>sum (xi, i). js_add rt sum (JNum (js_mul rt xi (at_index (numeric ((pre @ [y]) @ ys)) i))))
     (JNum (Fin (c + x * y))) (zip (numeric xs) [Suc k..<Suc k + length xs])
   = JNum (Fin ((c + x * y) + (\<Sum>(a, b)\<leftarrow>zip xs ys. a * b)))"
    by (rule Cons.IH) (use Cons.prems in simp_all)
  then show ?case
    unfolding up using at d by (simp add: numeric_def add.assoc js_add_fin js_mul_fin)
qed

lemma foldl_products_exact0:
  assumes "length xs = length ys"
    "list_all is_double (map (\<lambda>(a, b). a * b) (zip xs ys))"
    "list_all is_double (running_sums 0 (map (\<lambda>(a, b). a * b) (zip xs ys)))"
  shows "foldl (\<lambda>sum (xi, i). js_add rt sum (JNum (js_mul rt xi (at_index (numeric ys) i))))
     (JNum (Fin 0)) (zip (numeric xs) [0..<length (numeric xs)])
   = JNum (Fin (\<Sum>(a, b)\<leftarrow>zip xs ys. a * b))"
  using foldl_products_exact [OF assms(1) _ assms(2,3), of "[]" 0 rt] by (simp add: numeric_def)

lemma computed_exactlyD:
  assumes "computed_exactly xs ys"
  shows "list_all is_double (running_sums 0 xs)"
    "list_all is_double (running_sums 0 ys)"
    "list_all is_double (map (\<lambda>(a, b). a * b) (zip xs ys))"
    "list_all is_double (running_sums 0 (map (\<lambda>(a, b). a * b) (zip xs ys)))"
    "list_all is_double (map (\<lambda>a. a * a) xs)"
    "list_all is_double (running_sums 0 (map (\<lambda>a. a * a) xs))"
    "list_all is_double (map (\<lambda>b. b * b) ys)"
    "list_all is_double (running_sums 0 (map (\<lambda>b. b * b) ys))"
    "is_double (real (length xs) * (\<Sum>(a, b)\<leftarrow>zip xs ys. a * b))"
    "is_double (sum_list xs * sum_list ys)"
    "is_double (covariance_term xs ys)"
    "is_double (real (length xs) * (\<Sum>a\<leftarrow>xs. a * a))"
    "is_double (sum_list xs * sum_list xs)"
    "is_double (variance_term xs)"
    "is_double (real (length xs) * (\<Sum>b\<leftarrow>ys. b * b))"
    "is_double (sum_list ys * sum_list ys)"
    "is_double (variance_term ys)"
    "is_double (variance_term xs * variance_term ys)"
  using assms by (simp_all add: computed_exactly_def exact_steps_def Let_def)

lemma calculateCorrelation_exact:
  assumes "length xs = length ys" "computed_exactly xs ys"
  shows "calculateCorrelation rt (numeric xs) (numeric ys) =
    (if xs = [] then Fin 0
     else if binary64 (sqrt (variance_term xs * variance_term ys)) = Fin 0 then Fin 0
     else js_div (Fin (covariance_term xs ys))
            (binary64 (sqrt (variance_term xs * variance_term ys))))"
proof (cases "xs = []")
  case True
  then show ?thesis by (simp add: calculateCorrelation_def numeric_def)
next
  case False
  note d = computed_exactlyD [OF assms(2)]
  let ?n = "real (length xs)"
  let ?sxy = "\<Sum>(a, b)\<leftarrow>zip xs ys. a * b"
  let ?sxx = "\<Sum>a\<leftarrow>xs. a * a"
  let ?syy = "\<Sum>b\<leftarrow>ys. b * b"
  have len: "length (numeric xs) = length xs" by (simp add: numeric_def)
  have n0: "length (numeric xs) \<noteq> 0" using False by (simp add: numeric_def)
  have sx: "foldl (\<lambda>a b. js_add rt a b) (JNum (Fin 0)) (numeric xs) = JNum (Fin (sum_list xs))"
    using foldl_sum_exact [OF d(1), of rt] by simp
  have sy: "foldl (\<lambda>a b. js_add rt a b) (JNum (Fin 0)) (numeric ys) = JNum (Fin (sum_list ys))"
    using foldl_sum_exact [OF d(2), of rt] by simp
  have sxy: "foldl (\<lambda>sum (xi, i). js_add rt sum (JNum (js_mul rt xi (at_index (numeric ys) i))))
       (JNum (Fin 0)) (zip (numeric xs) [0..<length (numeric xs)]) = JNum (Fin ?sxy)"
    by (rule foldl_products_exact0 [OF assms(1) d(3,4)])
  have sxx: "foldl (\<lambda>sum xi. js_add rt sum (JNum (js_mul rt xi xi))) (JNum (Fin 0)) (numeric xs)
       = JNum (Fin ?sxx)"
    using foldl_squares_exact [OF d(5,6), of rt] by simp
  have syy: "foldl (\<lambda>sum yi. js_add rt sum (JNum (js_mul rt yi yi))) (JNum (Fin 0)) (numeric ys)
       = JNum (Fin ?syy)"
    using foldl_squares_exact [OF d(7,8), of rt] by simp
  have e: "binary64 (?n * ?sxy) = Fin (?n * ?sxy)"
      "binary64 (sum_list xs * sum_list ys) = Fin (sum_list xs * sum_list ys)"
      "binary64 (?n * ?sxy - sum_list xs * sum_list ys) = Fin (covariance_term xs ys)"
      "binary64 (?n * ?sxx) = Fin (?n * ?sxx)"
      "binary64 (sum_list xs * sum_list xs) = Fin (sum_list xs * sum_list xs)"
      "binary64 (?n * ?sxx - sum_list xs * sum_list xs) = Fin (variance_term xs)"
      "binary64 (?n * ?syy) = Fin (?n * ?syy)"
      "binary64 (sum_list ys * sum_list ys) = Fin (sum_list ys * sum_list ys)"
      "binary64 (?n * ?syy - sum_list ys * sum_list ys) = Fin (variance_term ys)"
      "binary64 (variance_term xs * variance_term ys) = Fin (variance_term xs * variance_term ys)"
    using d(9-18) assms(1) unfolding is_double_def covariance_term_def variance_term_def by simp_all
  have nonneg: "\<not> variance_term xs * variance_term ys < 0"
    using variance_term_ge0 [of xs] variance_term_ge0 [of ys] by (simp add: not_less)
  have num: "js_sub (js_mul rt (JNum (Fin ?n)) (JNum (Fin ?sxy))) (js_mul rt (JNum (Fin (sum_list xs))) (JNum (Fin (sum_list ys))))
      = Fin (covariance_term xs ys)"
    by (simp only: js_mul_fin e js_sub_fin)
  have vx: "js_sub (js_mul rt (JNum (Fin ?n)) (JNum (Fin ?sxx))) (js_mul rt (JNum (Fin (sum_list xs))) (JNum (Fin (sum_list xs))))
      = Fin (variance_term xs)"
    by (simp only: js_mul_fin e js_sub_fin)
  have vy: "js_sub (js_mul rt (JNum (Fin ?n)) (JNum (Fin ?syy))) (js_mul rt (JNum (Fin (sum_list ys))) (JNum (Fin (sum_list ys))))
      = Fin (variance_term ys)"
    by (simp only: js_mul_fin e js_sub_fin)
  have den: "js_sqrt (js_mul rt (JNum (Fin (variance_term xs))) (JNum (Fin (variance_term ys))))
      = binary64 (sqrt (variance_term xs * variance_term ys))"
    using nonneg by (simp only: js_mul_fin e js_sqrt_def Math_sqrt.simps if_False rounded.simps)
  show ?thesis
    unfolding calculateCorrelation_def Let_def sx sy sxy sxx syy
    using False by (simp add: len num vx vy den)
qed


text \<open>
  Outside the finite numbers the formula loses its value: one infinite entry makes the
  sums infinite and their difference \<^verbatim>\<open>NaN\<close>, which is the case both callers of
  the function test for.
\<close>

lemma calculateCorrelation_infinite_entry:
  "calculateCorrelation rt [JNum PInf, JNum (Fin 1)] [JNum (Fin 1), JNum (Fin 2)] = NaN"
  by (simp add: calculateCorrelation_def js_add_def js_mul_def js_sub_def js_sqrt_def js_div_def
        at_index_def num_sub_def signed_inf_def binary64_numeral)

subsection \<open>Doubles of the examples\<close>

lemma double_large_fixed:
  assumes "2 ^ k \<le> \<bar>x\<bar>" "\<bar>x\<bar> < 2 ^ Suc k" "52 \<le> k" "k \<le> 1022"
    "x / 2 ^ (k - 52) = of_int m"
  shows "binary64 x = Fin x"
proof -
  have "of_int m * 2 ^ (k - 52) = x" using assms(5) by (simp add: field_simps)
  then show ?thesis unfolding binary64_large [OF assms(1-4)] assms(5) by simp
qed

lemma double_a1: "binary64 10000000200000001 = Fin 10000000200000000"
  by (subst binary64_large [of 53]) (simp_all add: round_even_def)

lemma double_a2: "binary64 10000000200000000 = Fin 10000000200000000"
  by (rule double_large_fixed [of 53 _ 5000000100000000]) simp_all






lemma double_b1: "binary64 20000000400000000 = Fin 20000000400000000"
  by (rule double_large_fixed [of 54 _ 5000000100000000]) simp_all

lemma double_b2: "binary64 30000000600000000 = Fin 30000000600000000"
  by (rule double_large_fixed [of 54 _ 7500000150000000]) simp_all

lemma double_b3: "binary64 90000001800000000 = Fin 90000001800000000"
  by (rule double_large_fixed [of 56 _ 5625000112500000]) simp_all

lemma double_b4: "binary64 90000001800000009 = Fin 90000001800000016"
  by (subst binary64_large [of 56]) (simp_all add: round_even_def)

lemmas correlation_steps =
  calculateCorrelation_def numeric_def js_add_def js_mul_def js_sub_def js_sqrt_def js_div_def
  at_index_def num_sub_def binary64_numeral binary64_neg_numeral

text \<open>
  C4, as stated, bounds the result for every pair of numeric sequences. The column
  \<open>100000001, 100000001, 100000001\<close> against \<open>1, 2, 3\<close> has zero variance, but its
  squares are rounded: the variance term comes out as \<open>-16\<close>, the root of the
  negative product is \<^verbatim>\<open>NaN\<close>, the test for a zero denominator lets it through,
  and the result is \<^verbatim>\<open>NaN\<close>.
\<close>

theorem constant_column_not_a_number:
  "length [100000001, 100000001, 100000001 :: real] = length [1, 2, 3 :: real] \<and>
   list_all is_double [100000001, 1, 2, 3] \<and>
   variance_term [100000001, 100000001, 100000001] = 0 \<and>
   calculateCorrelation sample_runtime
     (numeric [100000001, 100000001, 100000001]) (numeric [1, 2, 3]) = NaN"
proof -
  have d: "list_all is_double [100000001, 1, 2, 3]"
    by (simp add: is_double_def binary64_numeral)
  have v: "variance_term [100000001, 100000001, 100000001] = 0"
    by (simp add: variance_term_def)
  have c: "calculateCorrelation sample_runtime
     (numeric [100000001, 100000001, 100000001]) (numeric [1, 2, 3]) = NaN"
    by (simp add: correlation_steps double_a1 double_a2 double_b1 double_b2 double_b3 double_b4)
  show ?thesis using d v c by simp
qed

text \<open>
  C4, amended. For two sequences of finite numbers of the same length whose sums,
  products and differences are computed without rounding error,
  \<open>calculateCorrelation\<close> answers a finite number between \<open>-1\<close> and \<open>1\<close>, and
  exactly \<open>0\<close> when the sequences are empty or when one of the two factors under the
  root vanishes. The root and the quotient may round.
\<close>

theorem calculateCorrelation_bounds:
  assumes "length xs = length ys" "computed_exactly xs ys"
  shows "\<exists>r. calculateCorrelation rt (numeric xs) (numeric ys) = Fin r \<and> - 1 \<le> r \<and> r \<le> 1 \<and>
           (xs = [] \<or> variance_term xs = 0 \<or> variance_term ys = 0 \<longrightarrow> r = 0)"
proof -
  let ?v = "variance_term xs * variance_term ys"
  let ?c = "covariance_term xs ys"
  let ?D = "binary64 (sqrt ?v)"
  note eq = calculateCorrelation_exact [OF assms, of rt]
  have le: "\<bar>?c\<bar> \<le> sqrt ?v"
    using cov_sq_le [OF assms(1)] by (metis real_sqrt_abs real_sqrt_le_iff)
  have fc: "binary64 ?c = Fin ?c"
    using computed_exactlyD(11) [OF assms(2)] by (simp add: is_double_def)
  have fa: "binary64 \<bar>?c\<bar> = Fin \<bar>?c\<bar>"
    using fc binary64_fixed_minus [OF fc] by (simp add: abs_if)
  have geD: "num_ge ?D (Fin \<bar>?c\<bar>)" by (rule binary64_lower [OF fa le])
  have zero: "?D = Fin 0" if "variance_term xs = 0 \<or> variance_term ys = 0"
    using that by auto
  show ?thesis
  proof (cases "xs = [] \<or> ?D = Fin 0")
    case True
    then have "calculateCorrelation rt (numeric xs) (numeric ys) = Fin 0"
      unfolding eq by auto
    then show ?thesis by simp
  next
    case False
    then have ne: "xs \<noteq> []" and dn: "?D \<noteq> Fin 0" by blast+
    from dn zero have nz: "\<not> (variance_term xs = 0 \<or> variance_term ys = 0)" by blast
    have res: "calculateCorrelation rt (numeric xs) (numeric ys) = js_div (Fin ?c) ?D"
      unfolding eq using ne dn by simp
    have "\<exists>r. js_div (Fin ?c) ?D = Fin r \<and> - 1 \<le> r \<and> r \<le> 1"
    proof (cases ?D)
      case (Fin d)
      with geD dn have d: "\<bar>?c\<bar> \<le> d" "d \<noteq> 0" by (simp_all add: num_ge_def)
      then have dpos: "0 < d" by linarith
      with d(1) have "\<bar>?c / d\<bar> \<le> 1"
        by (simp only: abs_divide abs_of_pos pos_divide_le_eq mult_1)
      then have b: "- 1 \<le> ?c / d" "?c / d \<le> 1" by linarith+
      have u: "num_ge (Fin 1) (binary64 (?c / d))"
        by (rule binary64_upper [OF binary64_1 b(2)])
      have l: "num_ge (binary64 (?c / d)) (Fin (- 1))"
        by (rule binary64_lower [OF binary64_minus_1 b(1)])
      have "js_div (Fin ?c) ?D = binary64 (?c / d)"
        unfolding Fin using d(2) by (simp add: js_div_def)
      then show ?thesis
        using u l by (cases "binary64 (?c / d)") (simp_all add: num_ge_def)
    next
      case NaN
      with geD show ?thesis by (simp add: num_ge_def)
    next
      case PInf
      then show ?thesis by (simp add: js_div_def)
    next
      case NInf
      with geD show ?thesis by (simp add: num_ge_def)
    qed
    then show ?thesis using res nz ne by auto
  qed
qed

theorem calculateCorrelation_bounds_witness:
  "length [1, 2, 4 :: real] = length [3, 3, 5 :: real] \<and> computed_exactly [1, 2, 4] [3, 3, 5] \<and>
   (\<exists>r. calculateCorrelation sample_runtime (numeric [1, 2, 4]) (numeric [3, 3, 5]) = Fin r \<and> - 1 \<le> r \<and> r \<le> 1 \<and>
           ([1, 2, 4 :: real] = [] \<or> variance_term [1, 2, 4] = 0 \<or> variance_term [3, 3, 5] = 0 \<longrightarrow> r = 0))"
proof -
  have e: "computed_exactly [1, 2, 4] [3, 3, 5]"
    by (simp add: computed_exactly_def exact_steps_def is_double_def variance_term_def
          covariance_term_def binary64_numeral)
  show ?thesis
    using e calculateCorrelation_bounds [of "[1, 2, 4]" "[3, 3, 5]" sample_runtime] by simp
qed




subsection \<open>Ranking of the feature impacts\<close>

lemma comparator_sign:
  "a \<noteq> NaN \<Longrightarrow> b \<noteq> NaN \<Longrightarrow> num_less (Fin 0) (num_sub b a) = num_less a b"
  by (cases a; cases b) (simp_all add: num_sub_def)

lemma num_less_asym: "num_less a b \<Longrightarrow> \<not> num_less b a"
  by (cases a; cases b) simp_all

lemma num_ge_trans: "num_ge a b \<Longrightarrow> num_ge b c \<Longrightarrow> num_ge a c"
  unfolding num_ge_def by (cases a; cases b; cases c) simp_all

lemma Math_abs_NaN [simp]: "Math_abs v = NaN \<longleftrightarrow> v = NaN"
  by (cases v) simp_all

lemma set_insert_sorted [simp]: "set (insert_sorted cmp x ys) = insert x (set ys)"
  by (induction ys) auto

lemma mset_insert_sorted [simp]: "mset (insert_sorted cmp x ys) = add_mset x (mset ys)"
  by (induction ys) auto

lemma mset_js_sort [simp]: "mset (js_sort cmp xs) = mset xs"
  unfolding js_sort_def by (induction xs) auto

lemma set_js_sort [simp]: "set (js_sort cmp xs) = set xs"
  using mset_js_sort [of cmp xs] by (metis set_mset_mset)

lemma insert_sorted_sorted:
  assumes "impact x \<noteq> NaN" "\<forall>e\<in>set ys. impact e \<noteq> NaN" "sorted_wrt abs_ge ys"
  shows "sorted_wrt abs_ge (insert_sorted by_abs_impact x ys)"
  using assms
proof (induction ys)
  case Nil
  then show ?case by simp
next
  case (Cons y ys)
  show ?case
  proof (cases "num_less (Math_abs (impact x)) (Math_abs (impact y))")
    case True
    then have "num_less (Fin 0) (by_abs_impact x y)"
      using Cons.prems by (simp add: comparator_sign)
    moreover have "abs_ge y x"
      using True Cons.prems by (simp add: num_ge_def num_less_asym)
    ultimately show ?thesis using Cons by simp
  next
    case False
    then have n: "\<not> num_less (Fin 0) (by_abs_impact x y)"
      using Cons.prems by (simp add: comparator_sign)
    have xy: "abs_ge x y" using False Cons.prems by (simp add: num_ge_def)
    have "\<forall>z\<in>set ys. abs_ge x z"
      using xy Cons.prems(3) num_ge_trans by auto
    with n xy Cons.prems(3) show ?thesis by simp
  qed
qed

lemma js_sort_sorted:
  "\<forall>e\<in>set xs. impact e \<noteq> NaN \<Longrightarrow> sorted_wrt abs_ge (js_sort by_abs_impact xs)"
  unfolding js_sort_def
proof (induction xs)
  case Nil
  then show ?case by simp
next
  case (Cons x xs)
  have "set (foldr (insert_sorted by_abs_impact) xs []) = set xs"
    using set_js_sort [of by_abs_impact xs] by (simp add: js_sort_def)
  with Cons show ?case by (simp add: insert_sorted_sorted)
qed

lemma featureImpact_not_NaN [simp]: "impact (featureImpact rt ds t col) \<noteq> NaN"
  by (simp add: featureImpact_def Let_def isNaN_def)

lemma impacts_not_NaN: "e \<in> set (calculateFeatureImpacts rt ds t) \<Longrightarrow> impact e \<noteq> NaN"
  by (auto simp: calculateFeatureImpacts_def Let_def split: if_splits)

text \<open>
  C6. With an empty target name the ranking is empty. Otherwise it holds one entry for
  each column whose name differs from the target, the name of the column with its
  correlation against the target, \<^verbatim>\<open>NaN\<close> replaced by \<open>0\<close>; no impact is
  \<^verbatim>\<open>NaN\<close>, and the absolute impacts never increase along the result.
\<close>

theorem calculateFeatureImpacts_ranking:
  "(targetCol = [] \<longrightarrow> calculateFeatureImpacts rt dataset targetCol = []) \<and>
   (targetCol \<noteq> [] \<longrightarrow>
      mset (calculateFeatureImpacts rt dataset targetCol) =
        image_mset
          (\<lambda>col. \<lparr>fi_name = col_name col,
                  impact = (let corr = calculateCorrelation rt (featureNums dataset col)
                                         (targetNums dataset targetCol)
                            in if corr = NaN then Fin 0 else corr)\<rparr>)
          (filter_mset (\<lambda>col. col_name col \<noteq> targetCol) (mset (columns dataset))) \<and>
      mset (map fi_name (calculateFeatureImpacts rt dataset targetCol)) =
        mset (filter (\<lambda>name. name \<noteq> targetCol) (map col_name (columns dataset)))) \<and>
   (\<forall>e\<in>set (calculateFeatureImpacts rt dataset targetCol). impact e \<noteq> NaN) \<and>
   sorted_wrt (\<lambda>a b. num_ge (Math_abs (impact a)) (Math_abs (impact b)))
     (calculateFeatureImpacts rt dataset targetCol)"
proof -
  let ?cols = "filter (\<lambda>col. col_name col \<noteq> targetCol) (columns dataset)"
  let ?impacts = "map (featureImpact rt dataset targetCol) ?cols"
  have entry: "featureImpact rt dataset targetCol =
      (\<lambda>col. \<lparr>fi_name = col_name col,
                  impact = (let corr = calculateCorrelation rt (featureNums dataset col)
                                         (targetNums dataset targetCol)
                            in if corr = NaN then Fin 0 else corr)\<rparr>)"
    by (rule ext) (simp add: featureImpact_def isNaN_def Let_def)
  have names: "map fi_name ?impacts = filter (\<lambda>name. name \<noteq> targetCol) (map col_name (columns dataset))"
    by (simp add: featureImpact_def Let_def comp_def filter_map)
  have m: "targetCol \<noteq> [] \<Longrightarrow> mset (calculateFeatureImpacts rt dataset targetCol) = mset ?impacts"
    by (simp add: calculateFeatureImpacts_def Let_def)
  have 1: "targetCol = [] \<longrightarrow> calculateFeatureImpacts rt dataset targetCol = []"
    by (simp add: calculateFeatureImpacts_def)
  have 2: "targetCol \<noteq> [] \<longrightarrow> mset (calculateFeatureImpacts rt dataset targetCol) =
        image_mset (featureImpact rt dataset targetCol)
          (filter_mset (\<lambda>col. col_name col \<noteq> targetCol) (mset (columns dataset)))"
    using m by simp
  have 3: "targetCol \<noteq> [] \<longrightarrow> mset (map fi_name (calculateFeatureImpacts rt dataset targetCol)) =
        mset (filter (\<lambda>name. name \<noteq> targetCol) (map col_name (columns dataset)))"
  proof
    assume "targetCol \<noteq> []"
    then have "mset (map fi_name (calculateFeatureImpacts rt dataset targetCol)) = mset (map fi_name ?impacts)"
      using m by (metis mset_map)
    then show "mset (map fi_name (calculateFeatureImpacts rt dataset targetCol)) =
        mset (filter (\<lambda>name. name \<noteq> targetCol) (map col_name (columns dataset)))"
      by (simp only: names)
  qed
  have 4: "\<forall>e\<in>set (calculateFeatureImpacts rt dataset targetCol). impact e \<noteq> NaN"
    using impacts_not_NaN by blast
  have 5: "sorted_wrt abs_ge (calculateFeatureImpacts rt dataset targetCol)"
    by (simp add: calculateFeatureImpacts_def Let_def js_sort_sorted)
  show ?thesis using 1 2 3 4 5 unfolding entry by blast
qed


theorem calculateFeatureImpacts_ranking_witness:
  "''y'' \<noteq> [] \<and>
   calculateFeatureImpacts sample_runtime sample_dataset [] = [] \<and>
   mset (map fi_name (calculateFeatureImpacts sample_runtime sample_dataset ''y'')) = mset [''a'', ''b''] \<and>
   sorted_wrt (\<lambda>a b. num_ge (Math_abs (impact a)) (Math_abs (impact b)))
     (calculateFeatureImpacts sample_runtime sample_dataset ''y'')"
  using calculateFeatureImpacts_ranking [of "''y''" sample_runtime sample_dataset]
    calculateFeatureImpacts_ranking [of "[]" sample_runtime sample_dataset]
  by (simp add: sample_dataset_def)

section \<open>Properties of the result synthesizer\<close>

subsection \<open>The clamped accuracy and the four counts\<close>


lemma clamp_range:
  assumes "v \<noteq> NaN"
  shows "\<exists>a. Math_min (Fin 0.99) (Math_max (Fin 0.6) v) = Fin a \<and> 0.6 \<le> a \<and> a \<le> 0.99"
proof (cases v)
  case (Fin x)
  have "Math_min (Fin 0.99) (Math_max (Fin 0.6) (Fin x)) = Fin (min 0.99 (max 0.6 x))"
    by (simp add: Math_min_def Math_max_def min_def max_def)
  moreover have "0.6 \<le> min 0.99 (max 0.6 x)" "min 0.99 (max 0.6 x) \<le> 0.99" by simp_all
  ultimately show ?thesis unfolding Fin by blast
next
  case NaN
  with assms show ?thesis by simp
next
  case PInf
  have "Math_min (Fin 0.99) (Math_max (Fin 0.6) PInf) = Fin 0.99"
    by (simp add: Math_min_def Math_max_def)
  moreover have "(0.6::real) \<le> 0.99" by simp
  ultimately show ?thesis unfolding PInf by blast
next
  case NInf
  have "Math_min (Fin 0.99) (Math_max (Fin 0.6) NInf) = Fin 0.6"
    by (simp add: Math_min_def Math_max_def)
  moreover have "(0.6::real) \<le> 0.99" by simp
  ultimately show ?thesis unfolding NInf by blast
qed

lemma baseAccuracy_value:
  "baseAccuracy mc = Fin ((if category mc = DeepLearning then 0.88 else 0.82)
                          + (if tuning_enabled (tuning mc) then 0.05 else 0))"
  by (simp add: baseAccuracy_def Let_def)

lemma baseAccuracy_fin: "\<exists>b. baseAccuracy mc = Fin b"
  unfolding baseAccuracy_value by blast

lemma maxCorrelation_cases:
  assumes "\<forall>e\<in>set imps. impact e \<noteq> NaN"
  shows "(\<exists>m. maxCorrelation imps = Fin m) \<or> maxCorrelation imps = PInf"
proof (cases imps)
  case Nil
  then have "maxCorrelation imps = Fin 0.5" by (simp add: maxCorrelation_def)
  then show ?thesis by blast
next
  case (Cons e es)
  with assms have "impact e \<noteq> NaN" by simp
  moreover have "maxCorrelation imps = Math_abs (impact e)" using Cons by (simp add: maxCorrelation_def)
  ultimately show ?thesis by (cases "impact e") simp_all
qed

lemma accuracyModifier_cases:
  assumes "\<forall>e\<in>set imps. impact e \<noteq> NaN"
  shows "(\<exists>m. accuracyModifier imps = Fin m) \<or> accuracyModifier imps = PInf"
proof -
  from maxCorrelation_cases [OF assms] show ?thesis
  proof
    assume "\<exists>m. maxCorrelation imps = Fin m"
    then obtain m where "maxCorrelation imps = Fin m" ..
    then have "accuracyModifier imps = Fin ((m - 0.5) * 0.2)" by (simp add: accuracyModifier_def)
    then show ?thesis by blast
  next
    assume "maxCorrelation imps = PInf"
    then show ?thesis by (simp add: accuracyModifier_def num_sub_def signed_inf_def)
  qed
qed

lemma actualAccuracy_range:
  assumes "\<forall>e\<in>set imps. impact e \<noteq> NaN"
  shows "\<exists>a. actualAccuracy rnd mc imps = Fin a \<and> 0.6 \<le> a \<and> a \<le> 0.99"
  unfolding actualAccuracy_def
proof (rule clamp_range)
  obtain b where b: "baseAccuracy mc = Fin b" using baseAccuracy_fin by blast
  show "num_add (num_add (baseAccuracy mc) (accuracyModifier imps))
          (num_mul (Fin (draw_accuracy rnd)) (Fin 0.05)) \<noteq> NaN"
  proof -
    from accuracyModifier_cases [OF assms] show ?thesis
    proof
      assume "\<exists>m. accuracyModifier imps = Fin m"
      then obtain m where "accuracyModifier imps = Fin m" ..
      then show ?thesis by (simp add: b)
    next
      assume "accuracyModifier imps = PInf"
      then show ?thesis by (simp add: b)
    qed
  qed
qed

lemma totalCorrect_range:
  assumes "0.6 \<le> a" "a \<le> 0.99"
  shows "\<exists>k::nat. totalCorrect (Fin a) = Fin (real k) \<and> 120 \<le> k \<and> k \<le> 198 \<and> int k = round (200 * a)"
proof -
  let ?k = "\<lfloor>200 * a + 1 / 2\<rfloor>"
  have "120 \<le> 200 * a + 1 / 2" "200 * a + 1 / 2 < 199" using assms by simp_all
  then have lo: "120 \<le> ?k" and hi: "?k \<le> 198" by linarith+
  have tc: "totalCorrect (Fin a) = Fin (of_int ?k)"
    by (simp add: totalCorrect_def totalSamples_def)
  have r: "real_of_int ?k = real (nat ?k)" using lo by simp
  have "totalCorrect (Fin a) = Fin (real (nat ?k))" unfolding tc r ..
  moreover have "120 \<le> nat ?k" "nat ?k \<le> 198" using lo hi by linarith+
  moreover have "int (nat ?k) = round (200 * a)" using lo by (simp add: round_def)
  ultimately show ?thesis by blast
qed
lemma Math_round_fin: "Math_round (Fin x) = Fin (of_int (round x))"
  by (simp add: round_def)

lemma round_share_bounds:
  fixes c r :: real
  assumes "0 \<le> c" "0 \<le> r" "r \<le> 0.6" "c = 0 \<or> 2 \<le> c"
  shows "0 \<le> round (c * r)" "real_of_int (round (c * r)) \<le> c"
proof -
  have p: "0 \<le> c * r" using assms by simp
  then show "0 \<le> round (c * r)" by (simp add: round_def)
  have "c * r \<le> c * 0.6" using assms by (intro mult_left_mono) simp_all
  then have "c * r + 1 / 2 \<le> c * 0.6 + 1 / 2" by simp
  moreover have "real_of_int (round (c * r)) \<le> c * r + 1 / 2"
    unfolding round_def by (rule of_int_floor_le)
  ultimately have le: "real_of_int (round (c * r)) \<le> c * 0.6 + 1 / 2" by linarith
  from assms(4) show "real_of_int (round (c * r)) \<le> c"
  proof
    assume "c = 0"
    then show ?thesis by (simp add: round_def)
  next
    assume "2 \<le> c"
    with le show ?thesis by simp
  qed
qed

lemma confusion_counts:
  assumes "in_unit (draw_tp rnd)" "in_unit (draw_fp rnd)" "0.6 \<le> a" "a \<le> 0.99"
  shows "\<exists>TP FP FN TN :: nat.
           tp rnd (Fin a) = Fin (real TP) \<and> fp rnd (Fin a) = Fin (real FP) \<and>
           fn rnd (Fin a) = Fin (real FN) \<and> tn rnd (Fin a) = Fin (real TN) \<and>
           int (TP + TN) = round (200 * a) \<and> FP + FN = 200 - (TP + TN) \<and> TP + TN \<le> 198 \<and> 120 \<le> TP + TN \<and>
           int TP = round (real (TP + TN) * (0.5 + draw_tp rnd * 0.1)) \<and>
           int FP = round (real (FP + FN) * (0.4 + draw_fp rnd * 0.2))"
proof -
  obtain k :: nat where k: "totalCorrect (Fin a) = Fin (real k)" "120 \<le> k" "k \<le> 198"
      "int k = round (200 * a)"
    using totalCorrect_range [OF assms(3,4)] by blast
  define r where "r = 0.5 + draw_tp rnd * 0.1"
  define s where "s = 0.4 + draw_fp rnd * 0.2"
  define w where "w = 200 - k"
  have r: "0 \<le> r" "r \<le> 0.6" using assms(1) by (simp_all add: r_def in_unit_def)
  have s: "0 \<le> s" "s \<le> 0.6" using assms(2) by (simp_all add: s_def in_unit_def)
  have tw: "totalWrong (Fin a) = Fin (real w)"
    using k by (simp add: totalWrong_def totalSamples_def w_def)
  define t where "t = round (real k * r)"
  define f where "f = round (real w * s)"
  have t: "0 \<le> t" "real_of_int t \<le> real k"
    unfolding t_def using round_share_bounds [of "real k" r] r k by simp_all
  have f: "0 \<le> f" "real_of_int f \<le> real w"
    unfolding f_def using round_share_bounds [of "real w" s] s k by (simp_all add: w_def)
  have tk: "nat t \<le> k" using t by linarith
  have fw: "nat f \<le> w" using f by linarith
  have tpv: "tp rnd (Fin a) = Fin (real (nat t))"
    using t by (simp add: tp_def k t_def r_def round_def)
  have fpv: "fp rnd (Fin a) = Fin (real (nat f))"
    using f by (simp add: fp_def tw f_def s_def round_def)
  have tnv: "tn rnd (Fin a) = Fin (real (k - nat t))"
    using tk by (simp add: tn_def tpv k of_nat_diff)
  have fnv: "fn rnd (Fin a) = Fin (real (w - nat f))"
    using fw by (simp add: fn_def fpv tw of_nat_diff)
  have sum1: "nat t + (k - nat t) = k" using tk by simp
  have sum2: "nat f + (w - nat f) = w" using fw by simp
  have "int (nat t) = round (real (nat t + (k - nat t)) * (0.5 + draw_tp rnd * 0.1))"
    unfolding sum1 using t by (simp add: t_def r_def)
  moreover have "int (nat f) = round (real (nat f + (w - nat f)) * (0.4 + draw_fp rnd * 0.2))"
    unfolding sum2 using f by (simp add: f_def s_def)
  moreover have "int (nat t + (k - nat t)) = round (200 * a)" unfolding sum1 by (rule k)
  moreover have "nat f + (w - nat f) = 200 - (nat t + (k - nat t))" unfolding sum1 sum2 by (simp add: w_def)
  moreover have "nat t + (k - nat t) \<le> 198" "120 \<le> nat t + (k - nat t)" unfolding sum1 using k by simp_all
  ultimately show ?thesis using tpv fpv fnv tnv by blast
qed

lemma floor_int_half: "\<lfloor>real_of_int m + 1 / 2\<rfloor> = m"
  by linarith

lemma round_dec_exact: "round_dec d (real_of_int m / 10 ^ d) = real_of_int m / 10 ^ d"
proof -
  have "\<bar>real_of_int m / 10 ^ d\<bar> * 10 ^ d = real_of_int \<bar>m\<bar>" by (simp add: abs_divide)
  then have "round_dec d (real_of_int m / 10 ^ d) = sgn (real_of_int m / 10 ^ d) * real_of_int \<bar>m\<bar> / 10 ^ d"
    unfolding round_dec_def by (simp only: floor_int_half)
  also have "sgn (real_of_int m / 10 ^ d) = sgn (real_of_int m)"
    by (simp add: sgn_divide)
  also have "sgn (real_of_int m) * real_of_int \<bar>m\<bar> = real_of_int m"
    by (simp add: sgn_if)
  finally show ?thesis .
qed

lemma accuracy_of_counts:
  assumes "totalCorrect actual = Fin c"
  shows "accuracy_of (tp rnd actual) (tn rnd actual) = Fin (c / 200)"
  by (simp add: accuracy_of_def tp_def tn_def assms totalSamples_def)

lemma toFixed4_accuracy:
  fixes k :: nat
  shows "parseFloat_toFixed 4 (Fin (real k / 200)) = Fin (real k / 200)"
proof -
  have e: "real k / 200 = real_of_int (50 * int k) / 10 ^ 4" by simp
  have "\<bar>real k / 200\<bar> < 10 ^ 21 \<Longrightarrow> ?thesis"
    using round_dec_exact [of 4 "50 * int k"] unfolding e [symmetric] by simp
  moreover have "\<not> \<bar>real k / 200\<bar> < 10 ^ 21 \<Longrightarrow> ?thesis" by simp
  ultimately show ?thesis by blast
qed

lemma accuracy_make_metrics:
  "accuracy (make_metrics rnd cls a b c d) = parseFloat_toFixed 4 (accuracy_of a d)"
  by (simp add: make_metrics_def Let_def)

lemma reported_accuracy:
  assumes "\<forall>e\<in>set imps. impact e \<noteq> NaN"
  shows "\<exists>c. actualAccuracy rnd mc imps = Fin c \<and> 0.6 \<le> c \<and> c \<le> 0.99 \<and>
     accuracy (make_metrics rnd cls (tp rnd (actualAccuracy rnd mc imps)) (fp rnd (actualAccuracy rnd mc imps))
        (fn rnd (actualAccuracy rnd mc imps)) (tn rnd (actualAccuracy rnd mc imps)))
       = Fin (real_of_int (round (200 * c)) / 200) \<and>
     0.6 \<le> real_of_int (round (200 * c)) / 200 \<and> real_of_int (round (200 * c)) / 200 \<le> 0.99"
proof -
  obtain c where c: "actualAccuracy rnd mc imps = Fin c" "0.6 \<le> c" "c \<le> 0.99"
    using actualAccuracy_range [OF assms] by blast
  obtain k :: nat where k: "totalCorrect (Fin c) = Fin (real k)" "120 \<le> k" "k \<le> 198"
      "int k = round (200 * c)"
    using totalCorrect_range [OF c(2,3)] by blast
  have rk: "real_of_int (round (200 * c)) = real k" by (simp add: k(4) [symmetric])
  have acc: "accuracy (make_metrics rnd cls (tp rnd (Fin c)) (fp rnd (Fin c)) (fn rnd (Fin c)) (tn rnd (Fin c)))
      = Fin (real k / 200)"
    unfolding accuracy_make_metrics accuracy_of_counts [OF k(1)] by (rule toFixed4_accuracy)
  have lo: "0.6 \<le> real k / 200" using k(2) by simp
  have hi: "real k / 200 \<le> 0.99" using k(3) by simp
  show ?thesis
    unfolding c(1)
  proof (intro exI [of _ c] conjI)
    show "Fin c = Fin c" ..
    show "0.6 \<le> c" "c \<le> 0.99" by fact+
    show "accuracy (make_metrics rnd cls (tp rnd (Fin c)) (fp rnd (Fin c)) (fn rnd (Fin c)) (tn rnd (Fin c)))
      = Fin (real_of_int (round (200 * c)) / 200)" unfolding rk by (rule acc)
    show "0.6 \<le> real_of_int (round (200 * c)) / 200" unfolding rk by (rule lo)
    show "real_of_int (round (200 * c)) / 200 \<le> 0.99" unfolding rk by (rule hi)
  qed
qed


subsection \<open>The fields of the result\<close>

declare lossLoop.simps [simp del]

lemma metrics_simulate:
  "metrics (simulateBackendTraining rt rnd ds mc pp) =
     (let actual = actualAccuracy rnd mc (calculateFeatureImpacts rt ds (targetColumn mc))
      in make_metrics rnd (modelName mc \<in> set classificationModels)
           (tp rnd actual) (fp rnd actual) (fn rnd actual) (tn rnd actual))"
  by (simp add: simulateBackendTraining_def Let_def)

lemma confusionMatrix_simulate:
  "confusionMatrix (simulateBackendTraining rt rnd ds mc pp) =
     (let actual = actualAccuracy rnd mc (calculateFeatureImpacts rt ds (targetColumn mc))
      in [[tp rnd actual, fp rnd actual], [fn rnd actual, tn rnd actual]])"
  by (simp add: simulateBackendTraining_def Let_def)

lemma valid_draws_tp_fp: "valid_draws rnd \<Longrightarrow> in_unit (draw_tp rnd) \<and> in_unit (draw_fp rnd)"
  by (simp add: valid_draws_def)

lemma precision_of_counts:
  "precision_of (Fin (real TP)) (Fin (real FP)) = Fin (spec_precision TP FP)"
proof (cases "TP + FP = 0")
  case True
  then show ?thesis
    by (simp add: precision_of_def spec_precision_def or_zero_def signed_inf_def)
next
  case False
  then have "real TP + real FP \<noteq> 0" by (metis of_nat_add of_nat_eq_0_iff)
  with False show ?thesis
    by (simp add: precision_of_def spec_precision_def or_zero_def)
qed

lemma recall_of_counts:
  "recall_of (Fin (real TP)) (Fin (real FN)) = Fin (spec_recall TP FN)"
  using precision_of_counts [of TP FN]
  by (simp add: recall_of_def precision_of_def spec_recall_def spec_precision_def)

lemma f1Score_of_values:
  assumes "0 \<le> p" "0 \<le> r"
  shows "f1Score_of (Fin p) (Fin r) = Fin (spec_f1 p r)"
proof (cases "p + r = 0")
  case True
  with assms have "p = 0" "r = 0" by linarith+
  then show ?thesis by (simp add: f1Score_of_def spec_f1_def or_zero_def signed_inf_def)
next
  case False
  then show ?thesis by (simp add: f1Score_of_def spec_f1_def or_zero_def)
qed

lemma spec_precision_unit: "0 \<le> spec_precision TP FP \<and> spec_precision TP FP \<le> 1"
  by (simp add: spec_precision_def)

lemma spec_recall_unit: "0 \<le> spec_recall TP FN \<and> spec_recall TP FN \<le> 1"
  by (simp add: spec_recall_def)

lemma spec_f1_unit:
  assumes "0 \<le> p" "p \<le> 1" "0 \<le> r" "r \<le> 1"
  shows "0 \<le> spec_f1 p r \<and> spec_f1 p r \<le> 1"
proof (cases "p + r = 0")
  case True
  then show ?thesis by (simp add: spec_f1_def)
next
  case False
  with assms have pos: "0 < p + r" by linarith
  have "p * r \<le> p * 1" "p * r \<le> 1 * r" using assms by (intro mult_left_mono mult_right_mono; simp)+
  then have "2 * p * r \<le> p + r" by simp
  moreover have "0 \<le> 2 * p * r" using assms by simp
  ultimately show ?thesis using pos False by (simp add: spec_f1_def)
qed

lemma toFixed_small: "\<bar>x\<bar> \<le> 1 \<Longrightarrow> parseFloat_toFixed d (Fin x) = Fin (round_dec d x)"
  by simp

lemma valid_sample_draws: "valid_draws sample_draws"
  by (simp add: valid_draws_def in_unit_def sample_draws_def)

subsection \<open>A concrete run\<close>

lemma sample_actual: "actualAccuracy sample_draws sample_config [] = Fin 0.82"
  by (simp add: actualAccuracy_def baseAccuracy_def accuracyModifier_def maxCorrelation_def
       sample_draws_def sample_config_def Math_max_def Math_min_def)

lemma sample_counts:
  "tp sample_draws (Fin 0.82) = Fin 82" "fp sample_draws (Fin 0.82) = Fin 14"
  "fn sample_draws (Fin 0.82) = Fin 22" "tn sample_draws (Fin 0.82) = Fin 82"
  by (simp_all add: tp_def fp_def fn_def tn_def totalCorrect_def totalWrong_def totalSamples_def sample_draws_def)

lemma sample_matrix:
  "confusionMatrix (simulateBackendTraining rt sample_draws ds sample_config pp) =
     [[Fin 82, Fin 14], [Fin 22, Fin 82]]"
proof -
  have "calculateFeatureImpacts rt ds (targetColumn sample_config) = []"
    by (simp add: calculateFeatureImpacts_def sample_config_def)
  then show ?thesis
    unfolding confusionMatrix_simulate Let_def by (simp only: sample_actual sample_counts)
qed

lemma sample_accuracy:
  "accuracy (metrics (simulateBackendTraining rt sample_draws ds sample_config pp)) = Fin 0.82"
proof -
  have "calculateFeatureImpacts rt ds (targetColumn sample_config) = []"
    by (simp add: calculateFeatureImpacts_def sample_config_def)
  then have "accuracy (metrics (simulateBackendTraining rt sample_draws ds sample_config pp)) =
      parseFloat_toFixed 4 (accuracy_of (Fin 82) (Fin 82))"
    unfolding metrics_simulate Let_def by (simp only: sample_actual sample_counts accuracy_make_metrics)
  also have "\<dots> = Fin 0.82"
    by (simp add: accuracy_of_def totalSamples_def round_dec_def)
  finally show ?thesis .
qed

subsection \<open>Metrics, confusion matrix and accuracy\<close>

text \<open>
  C1. Whatever the draws in the unit interval, the confusion matrix holds four natural
  numbers \<open>[[TP, FP], [FN, TN]]\<close>, and the reported precision, recall, F1 score and
  accuracy are the values recomputed from them (a zero denominator giving zero), each
  rounded to four decimals.
\<close>

theorem metrics_recomputed_from_matrix:
  assumes "valid_draws rnd"
  shows "\<exists>TP FP FN TN :: nat.
           confusionMatrix (simulateBackendTraining rt rnd dataset modelConfig preprocessing) =
             [[Fin (real TP), Fin (real FP)], [Fin (real FN), Fin (real TN)]] \<and>
           precision (metrics (simulateBackendTraining rt rnd dataset modelConfig preprocessing)) =
             Fin (round_dec 4 (spec_precision TP FP)) \<and>
           recall (metrics (simulateBackendTraining rt rnd dataset modelConfig preprocessing)) =
             Fin (round_dec 4 (spec_recall TP FN)) \<and>
           f1Score (metrics (simulateBackendTraining rt rnd dataset modelConfig preprocessing)) =
             Fin (round_dec 4 (spec_f1 (spec_precision TP FP) (spec_recall TP FN))) \<and>
           accuracy (metrics (simulateBackendTraining rt rnd dataset modelConfig preprocessing)) =
             Fin (round_dec 4 (spec_accuracy TP TN))"
proof -
  let ?imps = "calculateFeatureImpacts rt dataset (targetColumn modelConfig)"
  let ?cls = "modelName modelConfig \<in> set classificationModels"
  have "\<forall>e\<in>set ?imps. impact e \<noteq> NaN" using impacts_not_NaN by blast
  then obtain c where c: "actualAccuracy rnd modelConfig ?imps = Fin c" "0.6 \<le> c" "c \<le> 0.99"
    using actualAccuracy_range by blast
  from assms have u: "in_unit (draw_tp rnd)" "in_unit (draw_fp rnd)"
    using valid_draws_tp_fp by blast+
  obtain TP FP FN TN :: nat where n:
    "tp rnd (Fin c) = Fin (real TP)" "fp rnd (Fin c) = Fin (real FP)"
    "fn rnd (Fin c) = Fin (real FN)" "tn rnd (Fin c) = Fin (real TN)"
    "TP + TN \<le> 198"
    using confusion_counts [OF u c(2,3)] by blast
  let ?m = "make_metrics rnd ?cls (Fin (real TP)) (Fin (real FP)) (Fin (real FN)) (Fin (real TN))"
  have m: "metrics (simulateBackendTraining rt rnd dataset modelConfig preprocessing) = ?m"
    unfolding metrics_simulate Let_def c(1) n(1-4) ..
  have cm: "confusionMatrix (simulateBackendTraining rt rnd dataset modelConfig preprocessing) =
             [[Fin (real TP), Fin (real FP)], [Fin (real FN), Fin (real TN)]]"
    unfolding confusionMatrix_simulate Let_def c(1) n(1-4) ..
  have p: "precision ?m = Fin (round_dec 4 (spec_precision TP FP))"
    using spec_precision_unit [of TP FP]
    by (simp add: make_metrics_def Let_def precision_of_counts del: parseFloat_toFixed.simps add: toFixed_small)
  have r: "recall ?m = Fin (round_dec 4 (spec_recall TP FN))"
    using spec_recall_unit [of TP FN]
    by (simp add: make_metrics_def Let_def recall_of_counts del: parseFloat_toFixed.simps add: toFixed_small)
  have f1u: "0 \<le> spec_f1 (spec_precision TP FP) (spec_recall TP FN) \<and>
             spec_f1 (spec_precision TP FP) (spec_recall TP FN) \<le> 1"
    using spec_f1_unit spec_precision_unit spec_recall_unit by blast
  have f: "f1Score ?m = Fin (round_dec 4 (spec_f1 (spec_precision TP FP) (spec_recall TP FN)))"
    using f1u spec_precision_unit [of TP FP] spec_recall_unit [of TP FN]
    by (simp add: make_metrics_def Let_def precision_of_counts recall_of_counts f1Score_of_values
          del: parseFloat_toFixed.simps add: toFixed_small)
  have "\<bar>spec_accuracy TP TN\<bar> \<le> 1" using n(5) by (simp add: spec_accuracy_def)
  then have a: "accuracy ?m = Fin (round_dec 4 (spec_accuracy TP TN))"
    by (simp add: make_metrics_def Let_def accuracy_of_def totalSamples_def spec_accuracy_def
          del: parseFloat_toFixed.simps add: toFixed_small)
  show ?thesis
    unfolding m
    by (intro exI [of _ TP] exI [of _ FP] exI [of _ FN] exI [of _ TN] conjI) (fact cm p r f a)+
qed


theorem metrics_recomputed_from_matrix_witness:
  "valid_draws sample_draws \<and>
   confusionMatrix (simulateBackendTraining sample_runtime sample_draws sample_dataset sample_config ()) =
     [[Fin 82, Fin 14], [Fin 22, Fin 82]] \<and>
   precision (metrics (simulateBackendTraining sample_runtime sample_draws sample_dataset sample_config ())) = Fin 0.8542 \<and>
   recall (metrics (simulateBackendTraining sample_runtime sample_draws sample_dataset sample_config ())) = Fin 0.7885 \<and>
   f1Score (metrics (simulateBackendTraining sample_runtime sample_draws sample_dataset sample_config ())) = Fin 0.82 \<and>
   accuracy (metrics (simulateBackendTraining sample_runtime sample_draws sample_dataset sample_config ())) = Fin 0.82"
proof -
  let ?res = "simulateBackendTraining sample_runtime sample_draws sample_dataset sample_config ()"
  obtain TP FP FN TN :: nat where m:
    "confusionMatrix ?res = [[Fin (real TP), Fin (real FP)], [Fin (real FN), Fin (real TN)]]"
    "precision (metrics ?res) = Fin (round_dec 4 (spec_precision TP FP))"
    "recall (metrics ?res) = Fin (round_dec 4 (spec_recall TP FN))"
    "f1Score (metrics ?res) = Fin (round_dec 4 (spec_f1 (spec_precision TP FP) (spec_recall TP FN)))"
    "accuracy (metrics ?res) = Fin (round_dec 4 (spec_accuracy TP TN))"
    using metrics_recomputed_from_matrix [OF valid_sample_draws, of sample_runtime sample_dataset sample_config "()"]
    by blast
  have "real TP = 82" "real FP = 14" "real FN = 22" "real TN = 82"
    using m(1) sample_matrix [of sample_runtime sample_dataset "()"] by simp_all
  then have n: "TP = 82" "FP = 14" "FN = 22" "TN = 82"
    by linarith+
  have v: "round_dec 4 (spec_precision 82 14) = 0.8542" "round_dec 4 (spec_recall 82 22) = 0.7885"
    "round_dec 4 (spec_f1 (spec_precision 82 14) (spec_recall 82 22)) = 0.82"
    "round_dec 4 (spec_accuracy 82 82) = 0.82"
    by (simp_all add: spec_precision_def spec_recall_def spec_f1_def spec_accuracy_def round_dec_def)
  show ?thesis
    using valid_sample_draws sample_matrix [of sample_runtime sample_dataset "()"] m(2-5)
    unfolding n v by blast
qed

text \<open>
  C2. Whatever the draws in the unit interval, the four entries of the confusion matrix
  are natural numbers whose sum is 200; \<open>TP + TN\<close> is the clamped accuracy times 200,
  rounded; \<open>TP\<close> is that total times a ratio in \<open>[0.5, 0.6)\<close>, rounded, and \<open>FP\<close>
  is the rest \<open>FP + FN\<close> times a ratio in \<open>[0.4, 0.6)\<close>, rounded.
\<close>

theorem confusion_matrix_conservation:
  assumes "valid_draws rnd"
  shows "\<exists>TP FP FN TN :: nat.
           confusionMatrix (simulateBackendTraining rt rnd dataset modelConfig preprocessing) =
             [[Fin (real TP), Fin (real FP)], [Fin (real FN), Fin (real TN)]] \<and>
           TP + FP + FN + TN = 200 \<and>
           (\<exists>c. actualAccuracy rnd modelConfig
                   (calculateFeatureImpacts rt dataset (targetColumn modelConfig)) = Fin c \<and>
                int (TP + TN) = round (200 * c)) \<and>
           int TP = round (real (TP + TN) * (0.5 + draw_tp rnd * 0.1)) \<and>
           0.5 \<le> 0.5 + draw_tp rnd * 0.1 \<and> 0.5 + draw_tp rnd * 0.1 < 0.6 \<and>
           int FP = round (real (FP + FN) * (0.4 + draw_fp rnd * 0.2)) \<and>
           0.4 \<le> 0.4 + draw_fp rnd * 0.2 \<and> 0.4 + draw_fp rnd * 0.2 < 0.6"
proof -
  let ?imps = "calculateFeatureImpacts rt dataset (targetColumn modelConfig)"
  have "\<forall>e\<in>set ?imps. impact e \<noteq> NaN" using impacts_not_NaN by blast
  then obtain c where c: "actualAccuracy rnd modelConfig ?imps = Fin c" "0.6 \<le> c" "c \<le> 0.99"
    using actualAccuracy_range by blast
  from assms have u: "in_unit (draw_tp rnd)" "in_unit (draw_fp rnd)"
    using valid_draws_tp_fp by blast+
  obtain TP FP FN TN :: nat where n:
    "tp rnd (Fin c) = Fin (real TP)" "fp rnd (Fin c) = Fin (real FP)"
    "fn rnd (Fin c) = Fin (real FN)" "tn rnd (Fin c) = Fin (real TN)"
    "int (TP + TN) = round (200 * c)" "FP + FN = 200 - (TP + TN)" "TP + TN \<le> 198" "120 \<le> TP + TN"
    "int TP = round (real (TP + TN) * (0.5 + draw_tp rnd * 0.1))"
    "int FP = round (real (FP + FN) * (0.4 + draw_fp rnd * 0.2))"
    using confusion_counts [OF u c(2,3)] by blast
  have sum: "TP + FP + FN + TN = 200" using n(6,7) by linarith
  have r: "0.5 \<le> 0.5 + draw_tp rnd * 0.1" "0.5 + draw_tp rnd * 0.1 < 0.6"
    using u(1) by (simp_all add: in_unit_def)
  have s: "0.4 \<le> 0.4 + draw_fp rnd * 0.2" "0.4 + draw_fp rnd * 0.2 < 0.6"
    using u(2) by (simp_all add: in_unit_def)
  have cm: "confusionMatrix (simulateBackendTraining rt rnd dataset modelConfig preprocessing) =
             [[Fin (real TP), Fin (real FP)], [Fin (real FN), Fin (real TN)]]"
    unfolding confusionMatrix_simulate Let_def c(1) n(1-4) ..
  have ex: "\<exists>c. actualAccuracy rnd modelConfig ?imps = Fin c \<and> int (TP + TN) = round (200 * c)"
    using c(1) n(5) by blast
  show ?thesis
    by (intro exI [of _ TP] exI [of _ FP] exI [of _ FN] exI [of _ TN] conjI)
       (fact cm sum ex n(9) n(10) r s)+
qed


theorem confusion_matrix_conservation_witness:
  "valid_draws sample_draws \<and>
   confusionMatrix (simulateBackendTraining sample_runtime sample_draws sample_dataset sample_config ()) =
     [[Fin 82, Fin 14], [Fin 22, Fin 82]] \<and>
   (\<exists>TP FP FN TN :: nat.
      confusionMatrix (simulateBackendTraining sample_runtime sample_draws sample_dataset sample_config ()) =
        [[Fin (real TP), Fin (real FP)], [Fin (real FN), Fin (real TN)]] \<and>
      TP + FP + FN + TN = 200)"
  using valid_sample_draws sample_matrix [of sample_runtime sample_dataset "()"]
    confusion_matrix_conservation [OF valid_sample_draws, of sample_runtime sample_dataset sample_config "()"]
  by blast

text \<open>
  C3. For every dataset, configuration and draws (of any value), the clamped target
  accuracy \<open>c\<close> lies in \<open>[0.6, 0.99]\<close>, and the reported accuracy, which is
  \<open>round (200 * c) / 200\<close>, lies in \<open>[0.6, 0.99]\<close> as well.
\<close>

theorem accuracy_within_clamp:
  "\<exists>c a. actualAccuracy rnd modelConfig
             (calculateFeatureImpacts rt dataset (targetColumn modelConfig)) = Fin c \<and>
          0.6 \<le> c \<and> c \<le> 0.99 \<and>
          accuracy (metrics (simulateBackendTraining rt rnd dataset modelConfig preprocessing)) = Fin a \<and>
          a = real_of_int (round (200 * c)) / 200 \<and> 0.6 \<le> a \<and> a \<le> 0.99"
proof -
  let ?imps = "calculateFeatureImpacts rt dataset (targetColumn modelConfig)"
  have "\<forall>e\<in>set ?imps. impact e \<noteq> NaN" using impacts_not_NaN by blast
  from reported_accuracy [OF this, of rnd modelConfig "modelName modelConfig \<in> set classificationModels"]
  show ?thesis unfolding metrics_simulate Let_def by blast
qed

subsection \<open>The optional metrics\<close>

lemma round_dec_nonneg: "0 \<le> x \<Longrightarrow> 0 \<le> round_dec d x"
  by (simp add: round_dec_def sgn_if)

lemma round_dec_le_int:
  assumes "0 \<le> x" "x \<le> real_of_int m"
  shows "round_dec d x \<le> real_of_int m"
proof -
  have "x * 10 ^ d \<le> real_of_int m * 10 ^ d"
    using assms(2) by (intro mult_right_mono) simp_all
  moreover have "\<bar>x\<bar> * 10 ^ d = x * 10 ^ d" using assms(1) by simp
  moreover have "real_of_int (m * 10 ^ d) = real_of_int m * 10 ^ d" by simp
  ultimately have "\<bar>x\<bar> * 10 ^ d + 1 / 2 < real_of_int (m * 10 ^ d) + 1"
    by linarith
  then have "\<lfloor>\<bar>x\<bar> * 10 ^ d + 1 / 2\<rfloor> \<le> m * 10 ^ d" by linarith
  then have "real_of_int \<lfloor>\<bar>x\<bar> * 10 ^ d + 1 / 2\<rfloor> \<le> real_of_int m * 10 ^ d"
    by (metis of_int_le_iff of_int_mult of_int_numeral of_int_power)
  then have "real_of_int \<lfloor>\<bar>x\<bar> * 10 ^ d + 1 / 2\<rfloor> / 10 ^ d \<le> real_of_int m"
    by (simp add: field_simps)
  moreover have "sgn x = 1 \<or> sgn x = 0" using assms(1) by (auto simp: sgn_if)
  moreover have "0 \<le> real_of_int m" using assms by linarith
  ultimately show ?thesis unfolding round_dec_def by auto
qed

lemma auc_rmse_mae_make_metrics:
  "auc (make_metrics rnd cls a b c d) =
     (if cls then Some (parseFloat_toFixed 4 (num_add (accuracy_of a d) (Fin 0.02))) else None)"
  "rmse (make_metrics rnd cls a b c d) =
     (if \<not> cls then Some (parseFloat_toFixed 2 (Fin (draw_rmse rnd * 1000))) else None)"
  "mae (make_metrics rnd cls a b c d) =
     (if \<not> cls then Some (parseFloat_toFixed 2 (Fin (draw_mae rnd * 800))) else None)"
  by (simp_all add: make_metrics_def Let_def)

lemma toFixed2_draw:
  assumes "in_unit r" "0 \<le> real_of_int m" "real_of_int m \<le> 1000"
  shows "parseFloat_toFixed 2 (Fin (r * real_of_int m)) = Fin (round_dec 2 (r * real_of_int m))"
    and "0 \<le> round_dec 2 (r * real_of_int m)" and "round_dec 2 (r * real_of_int m) \<le> real_of_int m"
proof -
  have b: "0 \<le> r * real_of_int m" "r * real_of_int m \<le> real_of_int m"
    using assms by (simp_all add: in_unit_def mult_left_le_one_le)
  show "0 \<le> round_dec 2 (r * real_of_int m)" using b(1) by (rule round_dec_nonneg)
  show "round_dec 2 (r * real_of_int m) \<le> real_of_int m" using b by (rule round_dec_le_int)
  show "parseFloat_toFixed 2 (Fin (r * real_of_int m)) = Fin (round_dec 2 (r * real_of_int m))"
    using b assms(3) by simp
qed

lemma valid_edge_draws: "valid_draws edge_draws"
  by (simp add: valid_draws_def in_unit_def edge_draws_def)

lemma list_membership:
  "''CNN'' \<in> set classificationModels" "''ANN'' \<in> set classificationModels"
  "''RNN'' \<in> set classificationModels" "''Simple Transformer'' \<in> set classificationModels"
  "''Convolutional Neural Network (CNN)'' \<notin> set classificationModels"
  "''Artificial Neural Network (ANN)'' \<notin> set classificationModels"
  "''Recurrent Neural Network (RNN)'' \<notin> set classificationModels"
  "''LSTM'' \<notin> set classificationModels"
  "filter (\<lambda>m. m \<in> set classificationModels) deepLearningModels = [''Simple Transformer'']"
  by (simp_all add: classificationModels_def deepLearningModels_def)



lemma auc_value:
  fixes k :: nat
  assumes "k \<le> 198"
  shows "parseFloat_toFixed 4 (num_add (Fin (real k / 200)) (Fin 0.02)) = Fin (round_dec 4 (real k / 200 + 0.02))"
    and "round_dec 4 (real k / 200 + 0.02) = real k / 200 + 0.02"
proof -
  have "\<bar>real k / 200 + 0.02\<bar> < 10 ^ 21" using assms by simp
  then show "parseFloat_toFixed 4 (num_add (Fin (real k / 200)) (Fin 0.02)) = Fin (round_dec 4 (real k / 200 + 0.02))"
    by simp
  have e: "real k / 200 + 0.02 = real_of_int (50 * int k + 200) / 10 ^ 4" by simp
  show "round_dec 4 (real k / 200 + 0.02) = real k / 200 + 0.02"
    unfolding e by (rule round_dec_exact)
qed

text \<open>
  C8, as stated, bounds the two error magnitudes strictly below 1000 and 800. Rounding
  to two decimals reaches the upper ends: with both draws at 0.999999 a model outside
  the classification list reports exactly 1000 and 800.
\<close>

theorem rmse_reaches_upper_end:
  "valid_draws edge_draws \<and> modelName lstm_config \<notin> set classificationModels \<and>
   rmse (metrics (simulateBackendTraining sample_runtime edge_draws sample_dataset lstm_config ())) = Some (Fin 1000) \<and>
   mae (metrics (simulateBackendTraining sample_runtime edge_draws sample_dataset lstm_config ())) = Some (Fin 800)"
proof -
  have m: "modelName lstm_config \<notin> set classificationModels"
    by (simp add: lstm_config_def classificationModels_def)
  have "round_dec 2 (draw_rmse edge_draws * 1000) = 1000" "round_dec 2 (draw_mae edge_draws * 800) = 800"
    by (simp_all add: round_dec_def edge_draws_def)
  then show ?thesis
    unfolding metrics_simulate Let_def auc_rmse_mae_make_metrics
    using m valid_edge_draws by (simp add: round_dec_def edge_draws_def)
qed


text \<open>
  C8, amended. A model name in the classification list gives \<open>auc\<close> = accuracy plus 0.02
  rounded to four decimals and neither \<open>rmse\<close> nor \<open>mae\<close>; any other name gives no
  \<open>auc\<close>, and \<open>rmse\<close>, \<open>mae\<close> are 1000 times and 800 times a draw of their own,
  rounded to two decimals, hence between 0 and 1000, and 0 and 800, both ends included.
  The list holds the short names of the deep-learning models and none of the long names
  the training form offers, nor \<open>LSTM\<close>.
\<close>

theorem classification_metrics:
  assumes "valid_draws rnd"
  shows "\<exists>a. accuracy (metrics (simulateBackendTraining rt rnd dataset modelConfig preprocessing)) = Fin a \<and>
     (if modelName modelConfig \<in> set classificationModels
      then auc (metrics (simulateBackendTraining rt rnd dataset modelConfig preprocessing)) =
             Some (Fin (round_dec 4 (a + 0.02))) \<and>
           rmse (metrics (simulateBackendTraining rt rnd dataset modelConfig preprocessing)) = None \<and>
           mae (metrics (simulateBackendTraining rt rnd dataset modelConfig preprocessing)) = None
      else auc (metrics (simulateBackendTraining rt rnd dataset modelConfig preprocessing)) = None \<and>
           rmse (metrics (simulateBackendTraining rt rnd dataset modelConfig preprocessing)) =
             Some (Fin (round_dec 2 (draw_rmse rnd * 1000))) \<and>
           mae (metrics (simulateBackendTraining rt rnd dataset modelConfig preprocessing)) =
             Some (Fin (round_dec 2 (draw_mae rnd * 800)))) \<and>
     0 \<le> round_dec 2 (draw_rmse rnd * 1000) \<and> round_dec 2 (draw_rmse rnd * 1000) \<le> 1000 \<and>
     0 \<le> round_dec 2 (draw_mae rnd * 800) \<and> round_dec 2 (draw_mae rnd * 800) \<le> 800 \<and>
     ''CNN'' \<in> set classificationModels \<and> ''ANN'' \<in> set classificationModels \<and>
     ''RNN'' \<in> set classificationModels \<and> ''Simple Transformer'' \<in> set classificationModels \<and>
     ''Convolutional Neural Network (CNN)'' \<notin> set classificationModels \<and>
     ''Artificial Neural Network (ANN)'' \<notin> set classificationModels \<and>
     ''Recurrent Neural Network (RNN)'' \<notin> set classificationModels \<and>
     ''LSTM'' \<notin> set classificationModels \<and>
     filter (\<lambda>m. m \<in> set classificationModels) deepLearningModels = [''Simple Transformer'']"
proof -
  let ?imps = "calculateFeatureImpacts rt dataset (targetColumn modelConfig)"
  let ?cls = "modelName modelConfig \<in> set classificationModels"
  let ?res = "simulateBackendTraining rt rnd dataset modelConfig preprocessing"
  have "\<forall>e\<in>set ?imps. impact e \<noteq> NaN" using impacts_not_NaN by blast
  then obtain c where c: "actualAccuracy rnd modelConfig ?imps = Fin c" "0.6 \<le> c" "c \<le> 0.99"
    using actualAccuracy_range by blast
  obtain k :: nat where k: "totalCorrect (Fin c) = Fin (real k)" "k \<le> 198"
    using totalCorrect_range [OF c(2,3)] by blast
  have m: "metrics ?res = make_metrics rnd ?cls (tp rnd (Fin c)) (fp rnd (Fin c)) (fn rnd (Fin c)) (tn rnd (Fin c))"
    unfolding metrics_simulate Let_def c(1) ..
  have acc: "accuracy (metrics ?res) = Fin (real k / 200)"
    unfolding m accuracy_make_metrics accuracy_of_counts [OF k(1)] by (rule toFixed4_accuracy)
  have auc1: "?cls \<Longrightarrow> auc (metrics ?res) = Some (Fin (round_dec 4 (real k / 200 + 0.02)))"
    unfolding m auc_rmse_mae_make_metrics accuracy_of_counts [OF k(1)]
    by (simp only: auc_value(1) [OF k(2)] if_True)
  have auc2: "\<not> ?cls \<Longrightarrow> auc (metrics ?res) = None"
    unfolding m auc_rmse_mae_make_metrics by simp
  from assms have u: "in_unit (draw_rmse rnd)" "in_unit (draw_mae rnd)"
    by (simp_all add: valid_draws_def)
  have r: "parseFloat_toFixed 2 (Fin (draw_rmse rnd * 1000)) = Fin (round_dec 2 (draw_rmse rnd * 1000))"
      "0 \<le> round_dec 2 (draw_rmse rnd * 1000)" "round_dec 2 (draw_rmse rnd * 1000) \<le> 1000"
    using toFixed2_draw [OF u(1), of 1000] by simp_all
  have a: "parseFloat_toFixed 2 (Fin (draw_mae rnd * 800)) = Fin (round_dec 2 (draw_mae rnd * 800))"
      "0 \<le> round_dec 2 (draw_mae rnd * 800)" "round_dec 2 (draw_mae rnd * 800) \<le> 800"
    using toFixed2_draw [OF u(2), of 800] by simp_all
  have rm: "rmse (metrics ?res) = (if \<not> ?cls then Some (Fin (round_dec 2 (draw_rmse rnd * 1000))) else None)"
    unfolding m auc_rmse_mae_make_metrics r(1) ..
  have ma: "mae (metrics ?res) = (if \<not> ?cls then Some (Fin (round_dec 2 (draw_mae rnd * 800))) else None)"
    unfolding m auc_rmse_mae_make_metrics a(1) ..
  have branch: "if ?cls
      then auc (metrics ?res) = Some (Fin (round_dec 4 (real k / 200 + 0.02))) \<and>
           rmse (metrics ?res) = None \<and> mae (metrics ?res) = None
      else auc (metrics ?res) = None \<and>
           rmse (metrics ?res) = Some (Fin (round_dec 2 (draw_rmse rnd * 1000))) \<and>
           mae (metrics ?res) = Some (Fin (round_dec 2 (draw_mae rnd * 800)))"
    using auc1 auc2 rm ma by (cases ?cls) simp_all
  show ?thesis
    by (intro exI [of _ "real k / 200"] conjI) (fact acc branch r(2,3) a(2,3) list_membership)+
qed

theorem classification_metrics_witness:
  "valid_draws sample_draws \<and> ''Random Forest'' \<in> set classificationModels \<and>
   auc (metrics (simulateBackendTraining sample_runtime sample_draws sample_dataset sample_config ())) =
     Some (Fin (round_dec 4 (0.82 + 0.02))) \<and>
   rmse (metrics (simulateBackendTraining sample_runtime sample_draws sample_dataset sample_config ())) = None"
proof -
  have m: "modelName sample_config \<in> set classificationModels"
    by (simp add: sample_config_def classificationModels_def)
  obtain a where a: "accuracy (metrics (simulateBackendTraining sample_runtime sample_draws sample_dataset sample_config ())) = Fin a"
    "auc (metrics (simulateBackendTraining sample_runtime sample_draws sample_dataset sample_config ())) =
             Some (Fin (round_dec 4 (a + 0.02)))"
    "rmse (metrics (simulateBackendTraining sample_runtime sample_draws sample_dataset sample_config ())) = None"
    using classification_metrics [OF valid_sample_draws, of sample_runtime sample_dataset sample_config "()"] m
    by (auto simp only: if_True)
  have "Fin a = Fin 0.82"
    using a(1) sample_accuracy [of sample_runtime sample_dataset "()"] by (rule trans [OF sym])
  then have ae: "a = 0.82" by (simp only: jsnum.inject)
  have mem: "''Random Forest'' \<in> set classificationModels"
    by (simp add: classificationModels_def)
  show ?thesis using valid_sample_draws mem a(2,3) unfolding ae by blast
qed

subsection \<open>A run without a target column\<close>

lemma length_lossLoop: "length (lossLoop rnd A epochs i l c) = Suc epochs - i"
proof (induction rnd A epochs i l c rule: lossLoop.induct)
  case (1 rnd A epochs i l c)
  show ?case
  proof (cases "i \<le> epochs")
    case True
    then show ?thesis
      using "1.IH" [OF True refl refl refl]
      by (subst lossLoop.simps) (simp add: Let_def Suc_diff_le)
  next
    case False
    then show ?thesis by (subst lossLoop.simps) simp
  qed
qed

lemma lossHistory_simulate:
  "lossHistory (simulateBackendTraining rt rnd ds mc pp) =
     lossLoop (draw_loss rnd) (accuracy (metrics (simulateBackendTraining rt rnd ds mc pp)))
       (if category mc = DeepLearning then 30 else 20) 1 (Fin 0.7) (Fin 0.5)"
  by (simp add: simulateBackendTraining_def Let_def)

lemma explain_simulate:
  "shapValues (simulateBackendTraining rt rnd ds mc pp) =
     shap_of rnd (take 8 (calculateFeatureImpacts rt ds (targetColumn mc)))"
  "limeValues (simulateBackendTraining rt rnd ds mc pp) =
     lime_of rnd (take 8 (calculateFeatureImpacts rt ds (targetColumn mc)))"
  "featureImportance (simulateBackendTraining rt rnd ds mc pp) =
     map (\<lambda>s. \<lparr>imp_feature = feature s, importance = Math_abs (val s)\<rparr>)
       (shap_of rnd (take 8 (calculateFeatureImpacts rt ds (targetColumn mc))))"
  "topFeatName (simulateBackendTraining rt rnd ds mc pp) =
     (let s = shap_of rnd (take 8 (calculateFeatureImpacts rt ds (targetColumn mc)))
      in if 0 < length s then feature (s ! 0) else ''Feature X'')"
  "secondFeatName (simulateBackendTraining rt rnd ds mc pp) =
     (let s = shap_of rnd (take 8 (calculateFeatureImpacts rt ds (targetColumn mc)))
      in if 1 < length s then feature (s ! 1) else ''Feature Y'')"
  "modelCategory (simulateBackendTraining rt rnd ds mc pp) = category mc"
  by (simp_all add: simulateBackendTraining_def Let_def)

lemma actualAccuracy_no_impacts:
  "actualAccuracy rnd mc [] =
     Fin (min 0.99 (max 0.6 ((if category mc = DeepLearning then 0.88 else 0.82)
            + (if tuning_enabled (tuning mc) then 0.05 else 0) + draw_accuracy rnd * 0.05)))"
  by (simp add: actualAccuracy_def baseAccuracy_value accuracyModifier_def maxCorrelation_def
        Math_min_def Math_max_def min_def max_def)

text \<open>
  C9. With an empty target column the ranking is empty, the strongest correlation
  falls back to 0.5 and the modifier is 0, so the accuracy is the clamped baseline plus
  noise; the run still yields its result: no SHAP, LIME or importance entry, the two
  placeholder feature names, a loss history of full length, an accuracy in
  \<open>[0.6, 0.99]\<close> and a confusion matrix of four naturals that sum to 200.
\<close>

theorem empty_target_column:
  assumes "targetColumn modelConfig = []" "valid_draws rnd"
  shows "calculateFeatureImpacts rt dataset (targetColumn modelConfig) = [] \<and>
     maxCorrelation (calculateFeatureImpacts rt dataset (targetColumn modelConfig)) = Fin 0.5 \<and>
     accuracyModifier (calculateFeatureImpacts rt dataset (targetColumn modelConfig)) = Fin 0 \<and>
     actualAccuracy rnd modelConfig (calculateFeatureImpacts rt dataset (targetColumn modelConfig)) =
       Fin (min 0.99 (max 0.6 ((if category modelConfig = DeepLearning then 0.88 else 0.82)
              + (if tuning_enabled (tuning modelConfig) then 0.05 else 0) + draw_accuracy rnd * 0.05))) \<and>
     shapValues (simulateBackendTraining rt rnd dataset modelConfig preprocessing) = [] \<and>
     limeValues (simulateBackendTraining rt rnd dataset modelConfig preprocessing) = [] \<and>
     featureImportance (simulateBackendTraining rt rnd dataset modelConfig preprocessing) = [] \<and>
     topFeatName (simulateBackendTraining rt rnd dataset modelConfig preprocessing) = ''Feature X'' \<and>
     secondFeatName (simulateBackendTraining rt rnd dataset modelConfig preprocessing) = ''Feature Y'' \<and>
     modelCategory (simulateBackendTraining rt rnd dataset modelConfig preprocessing) = category modelConfig \<and>
     length (lossHistory (simulateBackendTraining rt rnd dataset modelConfig preprocessing)) =
       (if category modelConfig = DeepLearning then 30 else 20) \<and>
     (\<exists>a. accuracy (metrics (simulateBackendTraining rt rnd dataset modelConfig preprocessing)) = Fin a \<and>
          0.6 \<le> a \<and> a \<le> 0.99) \<and>
     (\<exists>TP FP FN TN :: nat.
        confusionMatrix (simulateBackendTraining rt rnd dataset modelConfig preprocessing) =
          [[Fin (real TP), Fin (real FP)], [Fin (real FN), Fin (real TN)]] \<and>
        TP + FP + FN + TN = 200)"
proof -
  let ?res = "simulateBackendTraining rt rnd dataset modelConfig preprocessing"
  have e: "calculateFeatureImpacts rt dataset (targetColumn modelConfig) = []"
    using assms(1) by (simp add: calculateFeatureImpacts_def)
  have mc: "maxCorrelation [] = Fin 0.5" by (simp add: maxCorrelation_def)
  have am: "accuracyModifier [] = Fin 0" by (simp add: accuracyModifier_def maxCorrelation_def)
  have sh: "shapValues ?res = []" "limeValues ?res = []" "featureImportance ?res = []"
     "topFeatName ?res = ''Feature X''" "secondFeatName ?res = ''Feature Y''"
     "modelCategory ?res = category modelConfig"
    unfolding explain_simulate e by (simp_all add: shap_of_def lime_of_def)
  have len: "length (lossHistory ?res) = (if category modelConfig = DeepLearning then 30 else 20)"
    unfolding lossHistory_simulate length_lossLoop by simp
  obtain c where c: "actualAccuracy rnd modelConfig [] = Fin c" "0.6 \<le> c" "c \<le> 0.99"
    using actualAccuracy_range [of "[]" rnd modelConfig] by auto
  have acc: "\<exists>a. accuracy (metrics ?res) = Fin a \<and> 0.6 \<le> a \<and> a \<le> 0.99"
    using reported_accuracy [of "[]" rnd modelConfig "modelName modelConfig \<in> set classificationModels"]
    unfolding metrics_simulate Let_def e by auto
  from assms(2) have u: "in_unit (draw_tp rnd)" "in_unit (draw_fp rnd)"
    using valid_draws_tp_fp by blast+
  obtain TP FP FN TN :: nat where n:
    "tp rnd (Fin c) = Fin (real TP)" "fp rnd (Fin c) = Fin (real FP)"
    "fn rnd (Fin c) = Fin (real FN)" "tn rnd (Fin c) = Fin (real TN)"
    "FP + FN = 200 - (TP + TN)" "TP + TN \<le> 198"
    using confusion_counts [OF u c(2,3)] by blast
  have sum: "TP + FP + FN + TN = 200" using n(5,6) by linarith
  have cm: "confusionMatrix ?res = [[Fin (real TP), Fin (real FP)], [Fin (real FN), Fin (real TN)]]"
    unfolding confusionMatrix_simulate Let_def e c(1) n(1-4) ..
  have cmx: "\<exists>TP FP FN TN :: nat.
        confusionMatrix ?res = [[Fin (real TP), Fin (real FP)], [Fin (real FN), Fin (real TN)]] \<and>
        TP + FP + FN + TN = 200"
    using cm sum by blast
  show ?thesis
    unfolding e
    by (intro conjI) (fact refl mc am actualAccuracy_no_impacts sh len acc cmx)+
qed

theorem empty_target_column_witness:
  "targetColumn sample_config = [] \<and> valid_draws sample_draws \<and>
   calculateFeatureImpacts sample_runtime sample_dataset (targetColumn sample_config) = [] \<and>
   shapValues (simulateBackendTraining sample_runtime sample_draws sample_dataset sample_config ()) = [] \<and>
   limeValues (simulateBackendTraining sample_runtime sample_draws sample_dataset sample_config ()) = [] \<and>
   length (lossHistory (simulateBackendTraining sample_runtime sample_draws sample_dataset sample_config ())) = 20 \<and>
   confusionMatrix (simulateBackendTraining sample_runtime sample_draws sample_dataset sample_config ()) =
     [[Fin 82, Fin 14], [Fin 22, Fin 82]]"
proof -
  have t: "targetColumn sample_config = []" by (simp add: sample_config_def)
  have c: "category sample_config \<noteq> DeepLearning" by (simp add: sample_config_def)
  show ?thesis
    using t c valid_sample_draws sample_matrix [of sample_runtime sample_dataset "()"]
      empty_target_column [OF t valid_sample_draws, of sample_runtime sample_dataset "()"]
    by simp
qed

subsection \<open>The loss history\<close>

















section \<open>Label encoding\<close>

lemma filter_filter_not_in:
  "filter (\<lambda>y. y \<noteq> x) (filter (\<lambda>y. y \<notin> set seen) xs) = filter (\<lambda>y. y \<notin> set (seen @ [x])) xs"
  by (induction xs) auto

lemma foldl_set_add:
  "foldl set_add seen xs = seen @ distinct_values (filter (\<lambda>y. y \<notin> set seen) xs)"
proof (induction xs arbitrary: seen)
  case Nil
  then show ?case by simp
next
  case (Cons x xs)
  show ?case
  proof (cases "x \<in> set seen")
    case True
    then show ?thesis using Cons [of seen] by (simp add: set_add_def)
  next
    case False
    then have "foldl set_add seen (x # xs) = foldl set_add (seen @ [x]) xs"
      by (simp add: set_add_def)
    also have "\<dots> = (seen @ [x]) @ distinct_values (filter (\<lambda>y. y \<notin> set (seen @ [x])) xs)"
      by (rule Cons)
    also have "\<dots> = seen @ distinct_values (filter (\<lambda>y. y \<notin> set seen) (x # xs))"
      using False unfolding filter_filter_not_in [symmetric] by simp
    finally show ?thesis .
  qed
qed

lemma array_from_set_distinct_values: "array_from_set xs = distinct_values xs"
  using foldl_set_add [of "[]" xs] by (simp add: array_from_set_def)

lemma set_distinct_values [simp]: "set (distinct_values xs) = set xs"
proof (induction xs rule: distinct_values.induct)
  case 1
  then show ?case by simp
next
  case (2 x xs)
  then show ?case by auto
qed

lemma distinct_distinct_values: "distinct (distinct_values xs)"
proof (induction xs rule: distinct_values.induct)
  case 1
  then show ?case by simp
next
  case (2 x xs)
  then show ?case by simp
qed

lemma indexOf_from_position:
  "indexOf_from i xs v =
     (if v \<in> set xs \<and> v \<noteq> JNum NaN then Fin (real (i + position_in xs v)) else Fin (- 1))"
proof (induction xs arbitrary: i)
  case Nil
  then show ?case by simp
next
  case (Cons u us)
  show ?case
    using Cons [of "Suc i"] by (auto simp: strict_equal_def position_in_def)
qed

lemma label_encode_spec: "label_encode raw = spec_label_encode raw"
  unfolding label_encode_def spec_label_encode_def Let_def array_from_set_distinct_values indexOf_def
  by (rule map_cong) (simp_all add: indexOf_from_position)

lemma targetIsString_spec:
  "is_string (js_find (\<lambda>v. v \<noteq> JNull) raw) = first_non_null_is_string raw"
  unfolding js_find_def first_non_null_is_string_def
  by (induction raw) simp_all

lemma bool_target_raw: "map (\<lambda>r. get_prop r ''t'') (rows bool_dataset) = [JBool True, JBool False]"
  by (simp add: bool_dataset_def get_prop_def)

lemma bool_feature_raw: "map (\<lambda>r. get_prop r ''f'') (rows bool_dataset) = [JNum (Fin 1), JNum (Fin 2)]"
  by (simp add: bool_dataset_def get_prop_def)

lemma bool_target_encoded: "spec_label_encode [JBool True, JBool False] = [JNum (Fin 0), JNum (Fin 1)]"
  by (simp add: spec_label_encode_def position_in_def)

lemma corr_as_is:
  "calculateCorrelation rt [JNum (Fin 1), JNum (Fin 2)] [JBool True, JBool False] = Fin (- 1)"
  by (simp add: correlation_steps)

lemma corr_encoded:
  "calculateCorrelation rt [JNum (Fin 1), JNum (Fin 2)] [JNum (Fin 0), JNum (Fin 1)] = Fin 1"
  by (simp add: correlation_steps)


lemma bool_string_raw: "map (\<lambda>r. get_prop r ''s'') (rows bool_dataset) = [JStr ''b'', JStr ''a'']"
  by (simp add: bool_dataset_def get_prop_def)

lemma string_target_encoded: "spec_label_encode [JStr ''b'', JStr ''a''] = [JNum (Fin 0), JNum (Fin 1)]"
  by (simp add: spec_label_encode_def position_in_def)

lemma bool_targetNums: "targetNums bool_dataset ''t'' = [JBool True, JBool False]"
  by (simp add: targetNums_def Let_def bool_target_raw js_find_def)

lemma bool_featureNums:
  "featureNums bool_dataset \<lparr>col_name = ''f'', col_type = TNumber, missingCount = 0, uniqueCount = 2\<rparr>
     = [JNum (Fin 1), JNum (Fin 2)]"
  by (simp add: featureNums_def Let_def bool_feature_raw)

lemma bool_impacts:
  "calculateFeatureImpacts rt bool_dataset ''t'' = [\<lparr>fi_name = ''f'', impact = Fin (- 1)\<rparr>]"
proof -
  have "filter (\<lambda>col. col_name col \<noteq> ''t'') (columns bool_dataset) =
      [\<lparr>col_name = ''f'', col_type = TNumber, missingCount = 0, uniqueCount = 2\<rparr>]"
    by (simp add: bool_dataset_def flag_column_def)
  then show ?thesis
    by (simp add: calculateFeatureImpacts_def Let_def featureImpact_def bool_targetNums bool_featureNums
          corr_as_is isNaN_def js_sort_def)
qed

text \<open>
  C10, as stated, label-encodes a boolean target. A target column holding \<open>true, false\<close>
  is used as it is, where label encoding would give \<open>0, 1\<close>; the impact of the feature
  \<open>1, 2\<close> comes out as \<open>-1\<close> instead of \<open>1\<close>.
\<close>

theorem boolean_target_used_as_is:
  "map (\<lambda>r. get_prop r ''t'') (rows bool_dataset) = [JBool True, JBool False] \<and>
   targetNums bool_dataset ''t'' = [JBool True, JBool False] \<and>
   spec_label_encode [JBool True, JBool False] = [JNum (Fin 0), JNum (Fin 1)] \<and>
   calculateFeatureImpacts sample_runtime bool_dataset ''t'' = [\<lparr>fi_name = ''f'', impact = Fin (- 1)\<rparr>] \<and>
   calculateCorrelation sample_runtime [JNum (Fin 1), JNum (Fin 2)]
     (spec_label_encode [JBool True, JBool False]) = Fin 1"
  by (simp only: bool_target_raw bool_targetNums bool_target_encoded bool_impacts corr_encoded simp_thms)

text \<open>
  C10, amended. The target sequence is label-encoded exactly when the first value of the
  target column that is not \<^verbatim>\<open>null\<close> is a string, and is the raw column otherwise;
  a feature column is label-encoded exactly when its declared type is not
  \<^verbatim>\<open>number\<close>. Label encoding maps each value to its position in the list of
  distinct values in order of first occurrence.
\<close>

theorem label_encoding_of_columns:
  "targetNums dataset targetCol =
     (let targetRaw = map (\<lambda>r. get_prop r targetCol) (rows dataset)
      in if first_non_null_is_string targetRaw then spec_label_encode targetRaw else targetRaw) \<and>
   featureNums dataset col =
     (let rawVals = map (\<lambda>r. get_prop r (col_name col)) (rows dataset)
      in if col_type col = TNumber then rawVals else spec_label_encode rawVals)"
  by (simp add: targetNums_def featureNums_def Let_def label_encode_spec targetIsString_spec)

theorem label_encoding_of_columns_witness:
  "targetNums bool_dataset ''s'' = [JNum (Fin 0), JNum (Fin 1)] \<and>
   targetNums bool_dataset ''t'' = [JBool True, JBool False] \<and>
   featureNums bool_dataset flag_column = [JNum (Fin 0), JNum (Fin 1)]"
proof -
  have n: "col_name flag_column = ''t''" "col_type flag_column \<noteq> TNumber"
    by (simp_all add: flag_column_def)
  have s: "first_non_null_is_string [JStr ''b'', JStr ''a'']"
    "\<not> first_non_null_is_string [JBool True, JBool False]"
    by (simp_all add: first_non_null_is_string_def)
  show ?thesis
    using label_encoding_of_columns [of bool_dataset "''s''" flag_column]
      label_encoding_of_columns [of bool_dataset "''t''" flag_column]
    by (simp add: Let_def n s bool_target_raw bool_string_raw bool_target_encoded string_target_encoded)
qed

end
